(* ===== verification/Prelude.thy ===== *)
theory Prelude
  imports Main
begin

text \<open>
  Shared vocabulary of the development: the named theorem collections the
  component theories feed and use, the type of JavaScript plain objects as seen
  through their property order, and generic facts on lists, folds and association
  lists that the component proofs share.
\<close>

section \<open>Collections\<close>

named_theorems obj_simps \<open>evaluation rules of the JavaScript object model\<close>
named_theorems wf_intros \<open>preservation of well-formedness by the object operations\<close>

section \<open>Types\<close>

text \<open>
  A JavaScript plain object is observed only through its own properties, listed in
  the order of the abstract operation OrdinaryOwnPropertyKeys (array indices
  ascending, then the other string keys in creation order). The model keeps exactly
  that list: property name and value, in that order.
\<close>

type_synonym 'v obj = "(string \<times> 'v) list"

abbreviation keys :: "'v obj \<Rightarrow> string list" where
  "keys ps \<equiv> map fst ps"

section \<open>Folds\<close>

lemma foldl_invariant:
  assumes "P a"
    and "\<And>acc x. x \<in> set xs \<Longrightarrow> P acc \<Longrightarrow> P (f acc x)"
  shows "P (foldl f a xs)"
  using assms by (induction xs arbitrary: a) auto

lemma foldl_commute_map:
  assumes "\<And>acc x. x \<in> set xs \<Longrightarrow> h (f acc x) = g (h acc) x"
  shows "h (foldl f a xs) = foldl g (h a) xs"
  using assms by (induction xs arbitrary: a) auto

section \<open>Association lists\<close>

lemma length_eq_card_keys:
  "distinct (keys ps) \<Longrightarrow> length ps = card (fst ` set ps)"
  by (metis distinct_card length_map set_map)

lemma find_distinct_map:
  "distinct (map f xs) \<Longrightarrow> x \<in> set xs \<Longrightarrow> find (\<lambda>y. f y = f x) xs = Some x"
  by (induction xs) (auto simp: find_None_iff)

lemma find_rev_snoc:
  "find P (rev (xs @ [x])) = (if P x then Some x else find P (rev xs))"
  by simp

lemma find_Some_mem: "find P xs = Some x \<Longrightarrow> P x \<and> x \<in> set xs"
  by (induction xs) (auto split: if_splits)

lemma find_rev_split:
  "find P (rev xs) = Some x \<Longrightarrow> \<exists>as bs. xs = as @ x # bs \<and> (\<forall>b \<in> set bs. \<not> P b)"
proof (induction xs rule: rev_induct)
  case (snoc y ys)
  show ?case
  proof (cases "P y")
    case True
    with snoc.prems have "x = y" by simp
    then show ?thesis by (intro exI [of _ ys] exI [of _ "[]"]) simp
  next
    case False
    with snoc.prems obtain as bs where "ys = as @ x # bs" and "\<forall>b \<in> set bs. \<not> P b"
      using snoc.IH by auto
    with False show ?thesis by (intro exI [of _ as] exI [of _ "bs @ [y]"]) simp
  qed
qed simp

section \<open>Filters\<close>

lemma length_filter_conj_eq:
  "length (filter (\<lambda>x. P x \<and> Q x) xs) = length (filter P xs) \<longleftrightarrow> (\<forall>x \<in> set xs. P x \<longrightarrow> Q x)"
proof (induction xs)
  case (Cons x xs)
  have "length (filter (\<lambda>x. P x \<and> Q x) xs) \<le> length (filter P xs)"
    by (metis filter_filter length_filter_le)
  with Cons.IH show ?case by auto
qed simp

lemma length_filter_split:
  "length (filter (\<lambda>x. \<not> P x \<and> Q x) xs) + length (filter (\<lambda>x. P x \<and> Q x) xs) =
   length (filter Q xs)"
  by (induction xs) auto

end
