(* ===== verification/JS_Object.thy ===== *)
theory JS_Object
  imports Prelude
begin

text \<open>
  The JavaScript semantics the three source files run on, as far as their claims
  depend on it: primitive values, the conversion of a value to a property key
  (ToPropertyKey), the order in which an ordinary object lists its own properties
  (array indices ascending, then string keys in creation order), property
  assignment \<open>o[k] = v\<close> and object spread, and lodash's \<open>invert\<close>. None of this is
  code of the repository: it is the environment the code of
  \<open>edit-navigation/src/store/reducer.js\<close> and \<open>rich-text/src/component/use-format-types.js\<close>
  is evaluated in, written after ECMAScript (sections OrdinaryOwnPropertyKeys,
  Number::toString, CanonicalNumericIndexString) and lodash 4 (\<open>invert\<close>,
  \<open>createInverter\<close>, \<open>baseForOwn\<close>).
\<close>

section \<open>Values and errors\<close>

text \<open>
  The values that flow through the modelled code: menu item ids are integers,
  client ids are strings, \<open>auto_add\<close> flags are booleans, and any of them may be
  \<open>undefined\<close> or \<open>null\<close> when a caller leaves a field out. Numbers are the integers
  only; the code never produces a fractional id.
\<close>

datatype jsval = JUndefined | JNull | JBool bool | JNum int | JStr string

datatype js_error = TypeError string

section \<open>Canonical numeric strings\<close>

definition is_digit :: "char \<Rightarrow> bool" where
  "is_digit c \<longleftrightarrow> 48 \<le> (of_char c :: nat) \<and> (of_char c :: nat) \<le> 57"

definition digit_value :: "char \<Rightarrow> nat" where
  "digit_value c = of_char c - 48"

definition index_value :: "string \<Rightarrow> nat" where
  "index_value s = foldl (\<lambda>n c. 10 * n + digit_value c) 0 s"

text \<open>Decimal digits without a leading zero, as Number::toString prints them.\<close>

definition canonical_digits :: "string \<Rightarrow> bool" where
  "canonical_digits s \<longleftrightarrow> list_all is_digit s \<and>
     (case s of [] \<Rightarrow> False | c # cs \<Rightarrow> (if c = CHR ''0'' then cs = [] else True))"

text \<open>An array index is a canonical numeric string whose value is below \<open>2^32 - 1\<close>.\<close>

definition is_array_index :: "string \<Rightarrow> bool" where
  "is_array_index s \<longleftrightarrow> canonical_digits s \<and> index_value s < 4294967295"

fun string_of_nat :: "nat \<Rightarrow> string" where
  "string_of_nat n =
     (if n < 10 then [char_of (48 + n)]
      else string_of_nat (n div 10) @ [char_of (48 + n mod 10)])"

declare string_of_nat.simps [simp del]

definition string_of_int :: "int \<Rightarrow> string" where
  "string_of_int i =
     (if 0 \<le> i then string_of_nat (nat i) else CHR ''-'' # string_of_nat (nat (- i)))"

text \<open>ToPropertyKey on the values of the model (ToString of a primitive).\<close>

fun to_key :: "jsval \<Rightarrow> string" where
  "to_key JUndefined = ''undefined''"
| "to_key JNull = ''null''"
| "to_key (JBool b) = (if b then ''true'' else ''false'')"
| "to_key (JNum n) = string_of_int n"
| "to_key (JStr s) = s"

text \<open>ToBoolean: the falsy values of the model are \<open>undefined\<close>, \<open>null\<close>, \<open>false\<close>, \<open>0\<close> and \<open>''\<close>.\<close>

fun truthy :: "jsval \<Rightarrow> bool" where
  "truthy JUndefined = False"
| "truthy JNull = False"
| "truthy (JBool b) = b"
| "truthy (JNum n) = (n \<noteq> 0)"
| "truthy (JStr s) = (s \<noteq> [])"

subsection \<open>Printing and reading decimal numerals\<close>

lemma digit_char [simp]:
  assumes "d < 10"
  shows "is_digit (char_of (48 + d))" and "digit_value (char_of (48 + d)) = d"
  using assms by (simp_all add: is_digit_def digit_value_def)

text \<open>The ten digit characters, so that the simplifier prints numerals.\<close>

lemma char_of_digits [obj_simps]:
  "char_of (48::nat) = CHR ''0''" "char_of (49::nat) = CHR ''1''"
  "char_of (50::nat) = CHR ''2''" "char_of (51::nat) = CHR ''3''"
  "char_of (52::nat) = CHR ''4''" "char_of (53::nat) = CHR ''5''"
  "char_of (54::nat) = CHR ''6''" "char_of (55::nat) = CHR ''7''"
  "char_of (56::nat) = CHR ''8''" "char_of (57::nat) = CHR ''9''"
  by code_simp+

lemma index_value_snoc [simp]:
  "index_value (xs @ [c]) = 10 * index_value xs + digit_value c"
  by (simp add: index_value_def)

lemma index_value_ge_start:
  "a \<le> foldl (\<lambda>n c. 10 * n + digit_value c) a cs"
proof (induction cs arbitrary: a)
  case (Cons c cs)
  have "a \<le> 10 * a + digit_value c" by simp
  also have "\<dots> \<le> foldl (\<lambda>n c. 10 * n + digit_value c) (10 * a + digit_value c) cs"
    by (rule Cons.IH)
  finally show ?case by simp
qed simp

lemma string_of_nat_not_Nil [simp]: "string_of_nat n \<noteq> []"
  by (subst string_of_nat.simps) simp

lemma string_of_nat_digits: "list_all is_digit (string_of_nat n)"
proof (induction n rule: string_of_nat.induct)
  case (1 n)
  then show ?case by (subst string_of_nat.simps) simp
qed

lemma index_value_string_of_nat [simp]: "index_value (string_of_nat n) = n"
proof (induction n rule: string_of_nat.induct)
  case (1 n)
  then show ?case
    by (subst string_of_nat.simps) (simp add: index_value_def [of "[_]"])
qed

lemma hd_string_of_nat:
  "0 < n \<Longrightarrow> hd (string_of_nat n) \<noteq> CHR ''0''"
proof (induction n rule: string_of_nat.induct)
  case (1 n)
  show ?case
  proof (cases "n < 10")
    case True
    with "1.prems" have "digit_value (char_of (48 + n)) \<noteq> digit_value CHR ''0''"
      by (simp add: digit_value_def)
    then have "char_of (48 + n) \<noteq> CHR ''0''" by metis
    with True show ?thesis by (subst string_of_nat.simps) simp
  next
    case False
    with "1.IH" have "hd (string_of_nat (n div 10)) \<noteq> CHR ''0''" by simp
    with False show ?thesis by (subst string_of_nat.simps) simp
  qed
qed

lemma digit_value_lt: "is_digit c \<Longrightarrow> digit_value c < 10"
  unfolding is_digit_def digit_value_def by linarith

lemma char_of_digit_value: "is_digit c \<Longrightarrow> char_of (48 + digit_value c) = c"
proof -
  assume "is_digit c"
  then have "48 + digit_value c = (of_char c :: nat)"
    by (simp add: is_digit_def digit_value_def)
  then show ?thesis by (metis char_of_char)
qed

lemma index_value_Cons_pos:
  assumes "is_digit c" and "c \<noteq> CHR ''0''"
  shows "0 < index_value (c # cs)"
proof -
  have "(of_char c :: nat) \<noteq> of_char CHR ''0''"
    using assms(2) by (metis char_of_char)
  with assms(1) have "0 < digit_value c"
    by (simp add: is_digit_def digit_value_def)
  also have "digit_value c \<le> index_value (c # cs)"
    using index_value_ge_start [of "digit_value c" cs] by (simp add: index_value_def)
  finally show ?thesis .
qed

lemma canonical_string_of_nat: "canonical_digits (string_of_nat n)"
proof (cases "n = 0")
  case True
  then show ?thesis
    by (simp add: canonical_digits_def string_of_nat.simps [of 0] is_digit_def)
next
  case False
  obtain c cs where cs: "string_of_nat n = c # cs"
    by (cases "string_of_nat n") auto
  from False have "c \<noteq> CHR ''0''"
    using hd_string_of_nat [of n] cs by simp
  with cs show ?thesis
    using string_of_nat_digits [of n] by (simp add: canonical_digits_def)
qed

lemma canonical_snoc:
  assumes "canonical_digits (xs @ [c])" and "xs \<noteq> []"
  shows "canonical_digits xs" and "is_digit c" and "0 < index_value xs"
proof -
  obtain c' cs' where xs: "xs = c' # cs'" using assms(2) by (cases xs) auto
  with assms(1) have digits: "list_all is_digit xs" "is_digit c" and "c' \<noteq> CHR ''0''"
    by (auto simp: canonical_digits_def split: if_splits)
  with xs show "canonical_digits xs" and "is_digit c"
    by (simp_all add: canonical_digits_def)
  from xs digits \<open>c' \<noteq> CHR ''0''\<close> show "0 < index_value xs"
    by (simp add: index_value_Cons_pos)
qed

lemma string_of_nat_index_value_aux:
  "canonical_digits s \<Longrightarrow> string_of_nat (index_value s) = s"
proof (induction s rule: rev_induct)
  case Nil
  then show ?case by (simp add: canonical_digits_def)
next
  case (snoc c xs)
  show ?case
  proof (cases "xs = []")
    case True
    with snoc.prems have "is_digit c" by (simp add: canonical_digits_def)
    with True show ?thesis
      by (simp add: string_of_nat.simps [of "digit_value c"] index_value_def
          digit_value_lt char_of_digit_value)
  next
    case False
    note c = canonical_snoc [OF snoc.prems False]
    let ?n = "10 * index_value xs + digit_value c"
    have "\<not> ?n < 10" using c(3) by simp
    moreover have "?n div 10 = index_value xs" and "?n mod 10 = digit_value c"
      using digit_value_lt [OF c(2)] by simp_all
    ultimately have "string_of_nat ?n = string_of_nat (index_value xs) @ [c]"
      using char_of_digit_value [OF c(2)] by (simp add: string_of_nat.simps [of ?n])
    with snoc.IH [OF c(1)] show ?thesis by simp
  qed
qed

lemma index_value_inj:
  "is_array_index a \<Longrightarrow> is_array_index b \<Longrightarrow> index_value a = index_value b \<Longrightarrow> a = b"
  by (metis is_array_index_def string_of_nat_index_value_aux)

lemma array_index_string_of_nat:
  "is_array_index (string_of_nat n) \<longleftrightarrow> n < 4294967295"
  by (simp add: is_array_index_def canonical_string_of_nat)

section \<open>Property order\<close>

text \<open>
  \<open>key_before a b\<close>: in an object that has both keys, OrdinaryOwnPropertyKeys may
  list \<open>a\<close> before \<open>b\<close>. Array indices come first, in ascending numeric order; two
  other keys may come in either order (their creation order decides).
\<close>

definition key_before :: "string \<Rightarrow> string \<Rightarrow> bool" where
  "key_before a b \<longleftrightarrow>
     (if is_array_index b then is_array_index a \<and> index_value a < index_value b else True)"

text \<open>The property list of an ordinary object: distinct keys in that order.\<close>

definition wf_obj :: "'v obj \<Rightarrow> bool" where
  "wf_obj ps \<longleftrightarrow> distinct (keys ps) \<and> sorted_wrt key_before (keys ps)"

lemma key_before_trans: "key_before a b \<Longrightarrow> key_before b c \<Longrightarrow> key_before a c"
  by (auto simp: key_before_def split: if_splits)

lemma key_before_irrefl: "is_array_index a \<Longrightarrow> \<not> key_before a a"
  by (simp add: key_before_def)

lemma key_before_total:
  "a \<noteq> b \<Longrightarrow> \<not> (is_array_index a \<and> key_before a b) \<Longrightarrow> key_before b a"
  unfolding key_before_def using index_value_inj [of a b]
  by (cases "index_value a = index_value b") (auto split: if_splits)

lemma wf_obj_Nil [simp, wf_intros]: "wf_obj []"
  by (simp add: wf_obj_def)

lemma wf_obj_Cons:
  "wf_obj ((k, v) # ps) \<longleftrightarrow>
     k \<notin> fst ` set ps \<and> (\<forall>k' \<in> fst ` set ps. key_before k k') \<and> wf_obj ps"
  by (auto simp: wf_obj_def)

section \<open>Property assignment\<close>

text \<open>
  \<open>o[k] = v\<close> on an ordinary object with no setter: an existing property keeps its
  place and takes the new value; a new array index goes to its numeric place among
  the indices; any other new key goes last.
\<close>

fun obj_set :: "'v obj \<Rightarrow> string \<Rightarrow> 'v \<Rightarrow> 'v obj" where
  "obj_set [] k v = [(k, v)]"
| "obj_set ((k', v') # ps) k v =
     (if k' = k then (k, v) # ps
      else if is_array_index k \<and> key_before k k' then (k, v) # (k', v') # ps
      else (k', v') # obj_set ps k v)"

lemma map_of_obj_set [obj_simps]: "map_of (obj_set ps k v) = (map_of ps)(k \<mapsto> v)"
  by (induction ps) (auto simp: fun_eq_iff)

lemma keys_obj_set [obj_simps]: "fst ` set (obj_set ps k v) = insert k (fst ` set ps)"
  using map_of_obj_set [of ps k v] by (simp flip: dom_map_of_conv_image_fst)

lemma wf_obj_set [wf_intros]: "wf_obj ps \<Longrightarrow> wf_obj (obj_set ps k v)"
proof (induction ps)
  case (Cons p ps)
  obtain k' v' where p: "p = (k', v')" by (cases p)
  show ?case
  proof (cases "k' = k")
    case True
    with Cons.prems p show ?thesis by (simp add: wf_obj_Cons)
  next
    case ne: False
    show ?thesis
    proof (cases "is_array_index k \<and> key_before k k'")
      case True
      with Cons.prems p have all: "\<forall>x \<in> fst ` set ((k', v') # ps). key_before k x"
        by (auto simp: wf_obj_Cons intro: key_before_trans)
      with True have "k \<notin> fst ` set ((k', v') # ps)"
        using key_before_irrefl by blast
      with all Cons.prems p ne True show ?thesis
        by (auto simp: wf_obj_Cons)
    next
      case False
      with ne have "key_before k' k" by (rule key_before_total [OF not_sym])
      with Cons.prems Cons.IH p ne False show ?thesis
        by (auto simp: wf_obj_Cons keys_obj_set)
    qed
  qed
qed (simp add: wf_obj_def)

lemma obj_set_existing:
  "wf_obj ps \<Longrightarrow> map_of ps k = Some v \<Longrightarrow> obj_set ps k v = ps"
proof (induction ps)
  case (Cons p ps)
  obtain k' v' where p: "p = (k', v')" by (cases p)
  show ?case
  proof (cases "k' = k")
    case True
    with Cons.prems p show ?thesis by simp
  next
    case False
    from Cons.prems(2) False p have "(k, v) \<in> set ps"
      by (auto dest: map_of_SomeD split: if_splits)
    with Cons.prems(1) p have "key_before k' k"
      by (auto simp: wf_obj_Cons)
    then have "\<not> (is_array_index k \<and> key_before k k')"
      by (auto simp: key_before_def)
    with False Cons.prems Cons.IH p show ?thesis by (simp add: wf_obj_Cons)
  qed
qed simp

text \<open>Reading \<open>o.k\<close> of an object: \<open>undefined\<close> when there is no such own property.\<close>

definition get_prop :: "jsval obj \<Rightarrow> string \<Rightarrow> jsval" where
  "get_prop ps k = (case map_of ps k of None \<Rightarrow> JUndefined | Some v \<Rightarrow> v)"

lemma get_prop_obj_set [obj_simps]:
  "get_prop (obj_set ps k v) k' = (if k' = k then v else get_prop ps k')"
  by (simp add: get_prop_def map_of_obj_set)

section \<open>Object spread\<close>

text \<open>
  \<open>Object.assign(target, src)\<close>, and the spread \<open>{...a, ...b}\<close> built from it:
  the own properties of the source are assigned, in the source's property order.
\<close>

definition obj_assign :: "'v obj \<Rightarrow> 'v obj \<Rightarrow> 'v obj" where
  "obj_assign target src = foldl (\<lambda>acc (k, v). obj_set acc k v) target src"

text \<open>\<open>{...x}\<close>: spreading \<open>undefined\<close> copies nothing.\<close>

definition spread :: "'v obj option \<Rightarrow> 'v obj" where
  "spread x = (case x of None \<Rightarrow> [] | Some ps \<Rightarrow> obj_assign [] ps)"

lemma wf_obj_assign [wf_intros]: "wf_obj t \<Longrightarrow> wf_obj (obj_assign t s)"
  unfolding obj_assign_def by (rule foldl_invariant) (auto intro: wf_obj_set)

lemma map_of_obj_assign [obj_simps]:
  "map_of (obj_assign t s) = foldl (\<lambda>m (k, v). m(k \<mapsto> v)) (map_of t) s"
  unfolding obj_assign_def by (rule foldl_commute_map) (auto simp: map_of_obj_set)

lemma obj_set_fresh_last:
  assumes "wf_obj t" and "k \<notin> fst ` set t" and "\<forall>k' \<in> fst ` set t. key_before k' k"
  shows "obj_set t k v = t @ [(k, v)]"
  using assms
proof (induction t)
  case (Cons p t)
  obtain k' v' where p: "p = (k', v')" by (cases p)
  from Cons.prems p have kb: "key_before k' k" and ne: "k' \<noteq> k" by auto
  then have no_ins: "\<not> (is_array_index k \<and> key_before k k')"
    by (auto simp: key_before_def split: if_splits)
  from Cons.prems p have "wf_obj t" and "k \<notin> fst ` set t"
    and "\<forall>k' \<in> fst ` set t. key_before k' k"
    by (simp_all add: wf_obj_Cons)
  then have "obj_set t k v = t @ [(k, v)]" by (rule Cons.IH)
  with p ne no_ins show ?case by simp
qed simp

lemma obj_assign_append:
  "wf_obj (t @ s) \<Longrightarrow> obj_assign t s = t @ s"
proof (induction s arbitrary: t)
  case (Cons p s)
  obtain k v where p: "p = (k, v)" by (cases p)
  have wf_t: "wf_obj t" and fresh: "k \<notin> fst ` set t"
    and before: "\<forall>k' \<in> fst ` set t. key_before k' k"
    using Cons.prems p by (auto simp: wf_obj_def sorted_wrt_append)
  from wf_t fresh before have "obj_set t k v = t @ [(k, v)]"
    by (rule obj_set_fresh_last)
  with Cons.prems Cons.IH [of "t @ [(k, v)]"] p show ?case
    by (simp add: obj_assign_def)
qed (simp add: obj_assign_def)

lemma obj_assign_Nil_wf: "wf_obj ps \<Longrightarrow> obj_assign [] ps = ps"
  using obj_assign_append [of "[]" ps] by simp

lemma spread_Some [obj_simps]: "wf_obj ps \<Longrightarrow> spread (Some ps) = ps"
  by (simp add: spread_def obj_assign_Nil_wf)

lemma obj_assign_Nil_spread [obj_simps]: "obj_assign [] (spread x) = spread x"
proof (cases x)
  case (Some ps)
  have "wf_obj (obj_assign [] ps)" by (intro wf_intros)
  with Some show ?thesis by (simp add: spread_def obj_assign_Nil_wf)
qed (simp add: spread_def obj_assign_def)

lemma wf_spread [wf_intros]:
  "pred_option wf_obj x \<Longrightarrow> wf_obj (spread x)"
  by (cases x) (simp add: spread_def, simp add: spread_Some)

lemma wf_spread_any [wf_intros]: "wf_obj (spread x)"
  by (cases x) (simp_all add: spread_def wf_obj_assign)

text \<open>
  Two assignments of distinct array-index keys commute: each index goes to its
  numeric place, whichever comes first.
\<close>

lemma obj_set_commute:
  assumes "k1 \<noteq> k2" and "is_array_index k1" and "is_array_index k2"
  shows "obj_set (obj_set ps k1 v1) k2 v2 = obj_set (obj_set ps k2 v2) k1 v1"
  using assms
proof (induction ps)
  case Nil
  then show ?case using key_before_total [of k1 k2] by (auto simp: key_before_def)
next
  case (Cons p ps)
  then show ?case
    using key_before_total [of k1 k2] key_before_trans [of k1 k2 "fst p"]
      key_before_trans [of k2 k1 "fst p"] key_before_trans [of k1 k2 k1]
    by (cases p) (auto simp: key_before_irrefl)
qed

section \<open>lodash invert\<close>

text \<open>
  \<open>_.invert(object)\<close>: for each own property \<open>(k, v)\<close> in property order,
  \<open>result[v] = k\<close>. The value becomes a key through ToPropertyKey; the key, a string,
  becomes the value. Where two properties have the same value the later one
  overwrites the earlier. \<open>_.invert(undefined)\<close> is \<open>{}\<close>.
\<close>

definition invert :: "jsval obj \<Rightarrow> jsval obj" where
  "invert ps = foldl (\<lambda>acc (k, v). obj_set acc (to_key v) (JStr k)) [] ps"

definition lodash_invert :: "jsval obj option \<Rightarrow> jsval obj" where
  "lodash_invert x = (case x of None \<Rightarrow> [] | Some ps \<Rightarrow> invert ps)"

lemma wf_invert [wf_intros]: "wf_obj (invert ps)"
  unfolding invert_def by (rule foldl_invariant) (auto intro: wf_obj_set)

lemma map_of_invert_upd:
  "map_of (invert ps) = foldl (\<lambda>m (k, v). m(to_key v \<mapsto> JStr k)) Map.empty ps"
proof -
  have "map_of (foldl (\<lambda>acc (k, v). obj_set acc (to_key v) (JStr k)) [] ps) =
      foldl (\<lambda>m (k, v). m(to_key v \<mapsto> JStr k)) (map_of []) ps"
    by (rule foldl_commute_map) (auto simp: map_of_obj_set)
  then show ?thesis by (simp add: invert_def)
qed

lemma dom_foldl_upd:
  "dom (foldl (\<lambda>m (k, v). m(to_key v \<mapsto> JStr k)) m0 ps) = dom m0 \<union> (to_key \<circ> snd) ` set ps"
  by (induction ps arbitrary: m0) auto

lemma foldl_upd_find:
  "foldl (\<lambda>m (k, v). m(to_key v \<mapsto> JStr k)) m0 ps s =
     (case find (\<lambda>(k, v). to_key v = s) (rev ps) of
        None \<Rightarrow> m0 s
      | Some (k, v) \<Rightarrow> Some (JStr k))"
  by (induction ps rule: rev_induct) (auto split: option.splits prod.splits)

lemma keys_invert: "fst ` set (invert ps) = (to_key \<circ> snd) ` set ps"
proof -
  have "fst ` set (invert ps) = dom (map_of (invert ps))"
    by (simp add: dom_map_of_conv_image_fst)
  also have "\<dots> = (to_key \<circ> snd) ` set ps"
    by (simp add: map_of_invert_upd dom_foldl_upd)
  finally show ?thesis .
qed

lemma length_invert: "length (invert ps) = card ((to_key \<circ> snd) ` set ps)"
  using wf_invert [of ps] keys_invert [of ps]
  by (simp add: wf_obj_def length_eq_card_keys)

lemma invert_lookup [obj_simps]:
  "map_of (invert ps) s =
     map_option (\<lambda>(k, v). JStr k) (find (\<lambda>(k, v). to_key v = s) (rev ps))"
  by (simp add: map_of_invert_upd foldl_upd_find split: option.splits)

text \<open>Every entry of the inverse comes from an entry of the object.\<close>

lemma invert_sound:
  assumes "wf_obj ps" and "map_of (invert ps) s = Some x"
  shows "\<exists>k v. x = JStr k \<and> map_of ps k = Some v \<and> to_key v = s"
proof -
  from assms(2) obtain k v where f: "find (\<lambda>(k, v). to_key v = s) (rev ps) = Some (k, v)"
    and x: "x = JStr k"
    by (auto simp: invert_lookup)
  from find_Some_mem [OF f] have "(k, v) \<in> set ps" and "to_key v = s" by auto
  moreover from assms(1) have "distinct (keys ps)" by (simp add: wf_obj_def)
  ultimately show ?thesis using x by (blast intro: map_of_is_SomeI)
qed

text \<open>Where no two properties share a value, every entry is inverted.\<close>

lemma invert_complete:
  assumes "distinct (map (to_key \<circ> snd) ps)" and "map_of ps k = Some v"
  shows "map_of (invert ps) (to_key v) = Some (JStr k)"
proof -
  have "distinct (map (to_key \<circ> snd) (rev ps))" using assms(1) by (simp flip: rev_map)
  moreover have "(k, v) \<in> set (rev ps)" using assms(2) by (simp add: map_of_SomeD)
  ultimately have "find (\<lambda>y. (to_key \<circ> snd) y = (to_key \<circ> snd) (k, v)) (rev ps) = Some (k, v)"
    by (rule find_distinct_map)
  moreover have "(\<lambda>y. (to_key \<circ> snd) y = (to_key \<circ> snd) (k, v)) = (\<lambda>(k', v'). to_key v' = to_key v)"
    by auto
  ultimately show ?thesis by (simp add: invert_lookup split_def)
qed

text \<open>Where several properties share a value, the last one in property order wins.\<close>

lemma invert_last:
  assumes "wf_obj ps" and "map_of (invert ps) s = Some (JStr k)"
    and "map_of ps k' = Some v'" and "to_key v' = s"
  shows "k' = k \<or> key_before k' k"
proof -
  from assms(2) obtain v where f: "find (\<lambda>(k, v). to_key v = s) (rev ps) = Some (k, v)"
    by (auto simp: invert_lookup)
  from find_rev_split [OF f] obtain as bs where ps: "ps = as @ (k, v) # bs"
    and after: "\<forall>b \<in> set bs. \<not> (case b of (k, v) \<Rightarrow> to_key v = s)"
    by blast
  have "(k', v') \<in> set ps" using assms(3) by (rule map_of_SomeD)
  with after assms(4) ps have "(k', v') \<in> set as \<or> (k', v') = (k, v)" by auto
  then show ?thesis
  proof
    assume "(k', v') \<in> set as"
    with assms(1) ps show ?thesis by (auto simp: wf_obj_def sorted_wrt_append)
  qed simp
qed

lemma invert_values_distinct:
  assumes "wf_obj ps"
  shows "distinct (map (to_key \<circ> snd) (invert ps))"
proof -
  have dist: "distinct (keys (invert ps))" using wf_invert [of ps] by (simp add: wf_obj_def)
  have "inj_on (to_key \<circ> snd) (set (invert ps))"
  proof (rule inj_onI)
    fix p q assume p: "p \<in> set (invert ps)" and q: "q \<in> set (invert ps)"
      and eq: "(to_key \<circ> snd) p = (to_key \<circ> snd) q"
    obtain s x t y where pq: "p = (s, x)" "q = (t, y)" by (cases p, cases q)
    from dist p q pq have "map_of (invert ps) s = Some x" "map_of (invert ps) t = Some y"
      by (simp_all add: map_of_is_SomeI)
    from invert_sound [OF assms this(1)] invert_sound [OF assms this(2)] eq pq
    show "p = q" by auto
  qed
  moreover have "distinct (invert ps)" using dist by (simp add: distinct_map)
  ultimately show ?thesis by (simp add: distinct_map)
qed

lemma length_invert_distinct:
  "distinct (map (to_key \<circ> snd) ps) \<Longrightarrow> length (invert ps) = length ps"
  by (metis distinct_card length_invert length_map set_map)

text \<open>Inverting twice gives back the object, with every value turned into its key.\<close>

lemma invert_invert:
  assumes "wf_obj ps" and "distinct (map (to_key \<circ> snd) ps)"
  shows "map_of (invert (invert ps)) k = map_option (JStr \<circ> to_key) (map_of ps k)"
proof (cases "map_of ps k")
  case None
  show ?thesis
  proof (rule ccontr)
    assume "\<not> ?thesis"
    with None obtain x where "map_of (invert (invert ps)) k = Some x" by auto
    from invert_sound [OF wf_invert this] obtain k' v' where
      "map_of (invert ps) k' = Some v'" and "to_key v' = k" by blast
    from invert_sound [OF assms(1) this(1)] \<open>to_key v' = k\<close> None show False by auto
  qed
next
  case (Some v)
  have "map_of (invert ps) (to_key v) = Some (JStr k)"
    using assms(2) Some by (rule invert_complete)
  moreover have "distinct (map (to_key \<circ> snd) (invert ps))"
    using assms(1) by (rule invert_values_distinct)
  ultimately have "map_of (invert (invert ps)) (to_key (JStr k)) = Some (JStr (to_key v))"
    using invert_complete [of "invert ps" "to_key v" "JStr k"] by blast
  with Some show ?thesis by simp
qed

section \<open>Evaluation\<close>

text \<open>The definitions a closed object term needs unfolded for the simplifier to evaluate it.\<close>

lemmas js_eval = is_array_index_def canonical_digits_def is_digit_def index_value_def
  digit_value_def key_before_def string_of_int_def string_of_nat.simps char_of_digits
  invert_def lodash_invert_def spread_def obj_assign_def

end
