(* ===== verification/Navigation_Store.thy ===== *)
theory Navigation_Store
  imports JS_Object
begin

text \<open>
  The id-mapping store of the navigation editor, \<open>edit-navigation/src/store/reducer.js\<close>:
  the reducer \<open>mappings\<close> (lines 11--40) that keeps \<open>menuItemIdByClientId\<close> (which, in
  spite of its name, is keyed by menu item id and holds client ids) and its lodash
  inverse \<open>clientIdByMenuItemId\<close>; the root reducer \<open>combineReducers({ mappings })\<close>
  (lines 42--44); and the data store that runs it, whose reachable states are the
  results of its initialisation followed by any sequence of dispatched actions.
\<close>

section \<open>State and actions\<close>

text \<open>
  The slice of state \<open>mappings\<close> is a plain object with at most the two properties
  the reducer writes. Its default is \<open>{}\<close> (line 39), in which both are
  \<open>undefined\<close>; the reducer never writes any other property.
\<close>

record mappings_state =
  menuItemIdByClientId :: "jsval obj option"
  clientIdByMenuItemId :: "jsval obj option"

definition empty_mappings :: mappings_state where
  "empty_mappings = \<lparr>menuItemIdByClientId = None, clientIdByMenuItemId = None\<rparr>"

text \<open>
  A dispatched action is a plain object; the reducer destructures \<open>type\<close> and reads
  \<open>mapping\<close>, \<open>menuItemId\<close> and \<open>clientId\<close> from the rest, each \<open>undefined\<close> when absent.
\<close>

record action =
  action_type :: string
  mapping :: "jsval obj option"
  menuItemId :: jsval
  clientId :: jsval

text \<open>A JavaScript object always has a well-formed property list.\<close>

definition wf_action :: "action \<Rightarrow> bool" where
  "wf_action a \<longleftrightarrow> pred_option wf_obj (mapping a)"

text \<open>
  The two action shapes the editor dispatches (\<open>edit-navigation/src/store/actions.js\<close>),
  and the action the data store dispatches when it is created.
\<close>

definition set_mapping_action :: "jsval obj \<Rightarrow> action" where
  "set_mapping_action m =
     \<lparr>action_type = ''SET_MENU_ITEMS_TO_CLIENT_ID_MAPPING'', mapping = Some m,
      menuItemId = JUndefined, clientId = JUndefined\<rparr>"

definition assign_action :: "jsval \<Rightarrow> jsval \<Rightarrow> action" where
  "assign_action m c =
     \<lparr>action_type = ''ASSIGN_MENU_ITEM_ID_TO_CLIENT_ID'', mapping = None,
      menuItemId = m, clientId = c\<rparr>"

definition redux_init_action :: action where
  "redux_init_action =
     \<lparr>action_type = ''@@redux/INIT'', mapping = None,
      menuItemId = JUndefined, clientId = JUndefined\<rparr>"

section \<open>The reducer\<close>

text \<open>
  \<^item> \<open>SET_MENU_ITEMS_TO_CLIENT_ID_MAPPING\<close> replaces the slice by the given mapping and
    its inverse (lines 14--20);
  \<^item> \<open>ASSIGN_MENU_ITEM_ID_TO_CLIENT_ID\<close> copies the current mapping with one property set,
    once for the logged local and once for the returned state, and returns the copy
    with the inverse of the local (lines 22--37); on an undefined state the read
    \<open>state.menuItemIdByClientId\<close> throws;
  \<^item> any other action returns the state, or \<open>{}\<close> when there is none (line 39).
  The empty \<open>if\<close> of lines 12--13 and the \<open>console.log\<close> of line 28 change nothing.
\<close>

definition mappings :: "mappings_state option \<Rightarrow> action \<Rightarrow> js_error + mappings_state" where
  "mappings state action =
     (if action_type action = ''SET_MENU_ITEMS_TO_CLIENT_ID_MAPPING'' then
        Inr \<lparr>menuItemIdByClientId = mapping action,
             clientIdByMenuItemId = Some (lodash_invert (mapping action))\<rparr>
      else if action_type action = ''ASSIGN_MENU_ITEM_ID_TO_CLIENT_ID'' then
        (case state of
           None \<Rightarrow> Inl (TypeError ''Cannot read properties of undefined'')
         | Some st \<Rightarrow>
             (let menuItemIdByClientId' =
                    obj_set (spread (menuItemIdByClientId st)) (to_key (menuItemId action))
                      (clientId action)
              in Inr (st\<lparr>menuItemIdByClientId :=
                           Some (obj_set (spread (menuItemIdByClientId st))
                                   (to_key (menuItemId action)) (clientId action)),
                         clientIdByMenuItemId := Some (invert menuItemIdByClientId')\<rparr>)))
      else Inr (case state of None \<Rightarrow> empty_mappings | Some st \<Rightarrow> st))"

text \<open>
  The root reducer \<open>combineReducers({ mappings })\<close>: the state is \<open>{ mappings }\<close>; on an
  undefined state the slice is read from \<open>{}\<close> and so is undefined too. An exception
  of the slice reducer propagates.
\<close>

record store_state =
  store_mappings :: mappings_state

definition reducer :: "store_state option \<Rightarrow> action \<Rightarrow> js_error + store_state" where
  "reducer state action =
     (case mappings (map_option store_mappings state) action of
        Inl e \<Rightarrow> Inl e
      | Inr m \<Rightarrow> Inr \<lparr>store_mappings = m\<rparr>)"

section \<open>The store\<close>

text \<open>
  The data store computes its initial state by reducing its initialisation action
  from an undefined state, and replaces its state by the reducer's result at every
  dispatch, one action at a time.
\<close>

inductive reachable :: "store_state \<Rightarrow> bool" where
  init: "reducer None redux_init_action = Inr s \<Longrightarrow> reachable s"
| step: "reachable s \<Longrightarrow> wf_action a \<Longrightarrow> reducer (Some s) a = Inr s' \<Longrightarrow> reachable s'"

fun dispatch_all :: "store_state \<Rightarrow> action list \<Rightarrow> js_error + store_state" where
  "dispatch_all s [] = Inr s"
| "dispatch_all s (a # as) =
     (case reducer (Some s) a of Inl e \<Rightarrow> Inl e | Inr s' \<Rightarrow> dispatch_all s' as)"

section \<open>The reducer, branch by branch\<close>

abbreviation SET :: string where "SET \<equiv> ''SET_MENU_ITEMS_TO_CLIENT_ID_MAPPING''"
abbreviation ASSIGN :: string where "ASSIGN \<equiv> ''ASSIGN_MENU_ITEM_ID_TO_CLIENT_ID''"

text \<open>The mapping an \<open>ASSIGN_MENU_ITEM_ID_TO_CLIENT_ID\<close> action produces from a slice.\<close>

abbreviation assigned :: "mappings_state \<Rightarrow> action \<Rightarrow> jsval obj" where
  "assigned st a \<equiv> obj_set (spread (menuItemIdByClientId st)) (to_key (menuItemId a)) (clientId a)"

lemma mappings_SET:
  "action_type a = SET \<Longrightarrow>
   mappings st a = Inr \<lparr>menuItemIdByClientId = mapping a,
                        clientIdByMenuItemId = Some (lodash_invert (mapping a))\<rparr>"
  by (simp add: mappings_def)

lemma mappings_ASSIGN:
  "action_type a = ASSIGN \<Longrightarrow>
   mappings (Some st) a =
     Inr (st\<lparr>menuItemIdByClientId := Some (assigned st a),
             clientIdByMenuItemId := Some (invert (assigned st a))\<rparr>)"
  by (simp add: mappings_def Let_def)

lemma mappings_other:
  "action_type a \<noteq> SET \<Longrightarrow> action_type a \<noteq> ASSIGN \<Longrightarrow>
   mappings st a = Inr (case st of None \<Rightarrow> empty_mappings | Some m \<Rightarrow> m)"
  by (simp add: mappings_def)

lemmas mappings_branches = mappings_SET mappings_ASSIGN mappings_other

lemma reducer_Some_Inr:
  "reducer (Some s) a = Inr s' \<longleftrightarrow> mappings (Some (store_mappings s)) a = Inr (store_mappings s')"
  by (auto simp: reducer_def split: sum.splits)

lemma mappings_Some_never_fails: "\<exists>m'. mappings (Some m) a = Inr m'"
  by (simp add: mappings_def Let_def)

section \<open>The invariant: the inverse is the inverse\<close>

text \<open>
  A slice is consistent when its mapping is an object and the inverse is exactly
  lodash's inverse of it; in the slice \<open>{}\<close> both are undefined, and after a
  mapping of \<open>undefined\<close> the inverse is \<open>{}\<close>.
\<close>

definition mappings_consistent :: "mappings_state \<Rightarrow> bool" where
  "mappings_consistent m \<longleftrightarrow>
     pred_option wf_obj (menuItemIdByClientId m) \<and>
     (case menuItemIdByClientId m of
        None \<Rightarrow> clientIdByMenuItemId m = None \<or> clientIdByMenuItemId m = Some []
      | Some f \<Rightarrow> clientIdByMenuItemId m = Some (invert f))"

lemma consistent_empty [simp]: "mappings_consistent empty_mappings"
  by (simp add: mappings_consistent_def empty_mappings_def)

lemma consistent_mappings:
  assumes "pred_option mappings_consistent st" and "wf_action a"
    and "mappings st a = Inr m'"
  shows "mappings_consistent m'"
proof (cases "action_type a = SET")
  case True
  with assms(2,3) show ?thesis
    by (cases "mapping a")
       (auto simp: mappings_SET mappings_consistent_def wf_action_def lodash_invert_def)
next
  case notset: False
  show ?thesis
  proof (cases "action_type a = ASSIGN")
    case True
    with assms(3) obtain m where st: "st = Some m"
      by (cases st) (auto simp: mappings_def)
    with assms(1) have "pred_option wf_obj (menuItemIdByClientId m)"
      by (simp add: mappings_consistent_def)
    then have "wf_obj (assigned m a)" by (intro wf_intros)
    with True assms(3) st show ?thesis
      by (auto simp: mappings_ASSIGN mappings_consistent_def)
  next
    case False
    with notset assms(1,3) show ?thesis
      by (cases st) (auto simp: mappings_other)
  qed
qed

lemma reducer_init: "reducer None redux_init_action = Inr \<lparr>store_mappings = empty_mappings\<rparr>"
  by (simp add: reducer_def mappings_def redux_init_action_def)

lemma reachable_consistent_aux: "reachable s \<Longrightarrow> mappings_consistent (store_mappings s)"
proof (induction rule: reachable.induct)
  case (init s)
  then have "s = \<lparr>store_mappings = empty_mappings\<rparr>" by (simp add: reducer_init)
  then show ?case by simp
next
  case (step s a s')
  then have "mappings (Some (store_mappings s)) a = Inr (store_mappings s')"
    by (simp add: reducer_Some_Inr)
  with step.IH step.hyps(2) show ?case
    by (intro consistent_mappings [of "Some (store_mappings s)" a]) simp_all
qed

lemma reachable_forward_wf:
  "reachable s \<Longrightarrow> menuItemIdByClientId (store_mappings s) = Some f \<Longrightarrow> wf_obj f"
  using reachable_consistent_aux [of s] by (simp add: mappings_consistent_def)

lemma reachable_backward:
  "reachable s \<Longrightarrow> menuItemIdByClientId (store_mappings s) = Some f \<Longrightarrow>
   clientIdByMenuItemId (store_mappings s) = Some (invert f)"
  using reachable_consistent_aux [of s] by (simp add: mappings_consistent_def)

lemma reachable_backward_undefined_forward:
  "reachable s \<Longrightarrow> menuItemIdByClientId (store_mappings s) = None \<Longrightarrow>
   clientIdByMenuItemId (store_mappings s) = Some b \<Longrightarrow> b = []"
  using reachable_consistent_aux [of s] by (simp add: mappings_consistent_def)

section \<open>Runs of the store\<close>

lemma reachable_initial: "reachable \<lparr>store_mappings = empty_mappings\<rparr>"
  by (rule reachable.init) (simp add: reducer_init)

lemma dispatch_all_reachable:
  "reachable s \<Longrightarrow> list_all wf_action as \<Longrightarrow> \<exists>s'. dispatch_all s as = Inr s' \<and> reachable s'"
proof (induction as arbitrary: s)
  case (Cons a as)
  obtain m' where "mappings (Some (store_mappings s)) a = Inr m'"
    using mappings_Some_never_fails by blast
  then have r: "reducer (Some s) a = Inr \<lparr>store_mappings = m'\<rparr>"
    by (simp add: reducer_def)
  with Cons.prems have "reachable \<lparr>store_mappings = m'\<rparr>"
    by (auto intro: reachable.step)
  with Cons.IH Cons.prems r show ?case by simp
qed simp

text \<open>A reachable state with one menu item (id 12) mapped to client id \<open>a\<close>.\<close>

definition example_state :: store_state where
  "example_state =
     \<lparr>store_mappings = \<lparr>menuItemIdByClientId = Some [(''12'', JStr ''a'')],
                        clientIdByMenuItemId = Some [(''a'', JStr ''12'')]\<rparr>\<rparr>"

lemma reachable_example_state: "reachable example_state"
proof (rule reachable.step [OF reachable_initial, of "set_mapping_action [(''12'', JStr ''a'')]"])
  show "wf_action (set_mapping_action [(''12'', JStr ''a'')])"
    by (simp add: wf_action_def set_mapping_action_def wf_obj_def)
  show "reducer (Some \<lparr>store_mappings = empty_mappings\<rparr>) (set_mapping_action [(''12'', JStr ''a'')]) =
      Inr example_state"
    by (simp add: reducer_def mappings_def set_mapping_action_def example_state_def js_eval)
qed

section \<open>Results of an assignment\<close>

lemma assigned_wf:
  "reachable s \<Longrightarrow> wf_obj (assigned (store_mappings s) a)"
  using reachable_consistent_aux [of s]
  by (intro wf_intros) (simp add: mappings_consistent_def)

lemma reducer_ASSIGN:
  "action_type a = ASSIGN \<Longrightarrow> reducer (Some s) a = Inr s' \<Longrightarrow>
   store_mappings s' = (store_mappings s)\<lparr>
      menuItemIdByClientId := Some (assigned (store_mappings s) a),
      clientIdByMenuItemId := Some (invert (assigned (store_mappings s) a))\<rparr>"
  by (simp add: reducer_Some_Inr mappings_ASSIGN)

lemma reducer_ASSIGN_step:
  "action_type a = ASSIGN \<Longrightarrow>
   reducer (Some s) a =
     Inr \<lparr>store_mappings = (store_mappings s)\<lparr>menuItemIdByClientId := Some (assigned (store_mappings s) a),
            clientIdByMenuItemId := Some (invert (assigned (store_mappings s) a))\<rparr>\<rparr>"
  by (simp add: reducer_def mappings_ASSIGN)

lemma assigned_lookup [simp]:
  "map_of (assigned m a) (to_key (menuItemId a)) = Some (clientId a)"
  by (simp add: map_of_obj_set)

lemma assigned_again:
  assumes "wf_obj (assigned m a)"
  shows "assigned (m\<lparr>menuItemIdByClientId := Some (assigned m a), clientIdByMenuItemId := x\<rparr>) a =
           assigned m a"
  using assms by (simp add: spread_Some obj_set_existing)

text \<open>
  After an assignment whose new mapping gives distinct client ids, the inverse maps
  the new client id to the menu item id and to nothing else.
\<close>

lemma assign_backward:
  assumes "reachable s" and "action_type a = ASSIGN" and "reducer (Some s) a = Inr s'"
    and "distinct (map (to_key \<circ> snd) (assigned (store_mappings s) a))"
  shows "clientIdByMenuItemId (store_mappings s') =
           Some (invert (assigned (store_mappings s) a))"
    and "map_of (invert (assigned (store_mappings s) a)) x = Some (JStr (to_key (menuItemId a)))
         \<longleftrightarrow> x = to_key (clientId a)"
proof -
  let ?f = "assigned (store_mappings s) a"
  show "clientIdByMenuItemId (store_mappings s') = Some (invert ?f)"
    using reducer_ASSIGN [OF assms(2,3)] by simp
  have hit: "map_of (invert ?f) (to_key (clientId a)) = Some (JStr (to_key (menuItemId a)))"
    using assms(4) assigned_lookup by (rule invert_complete)
  show "map_of (invert ?f) x = Some (JStr (to_key (menuItemId a))) \<longleftrightarrow> x = to_key (clientId a)"
  proof
    assume "map_of (invert ?f) x = Some (JStr (to_key (menuItemId a)))"
    from invert_sound [OF assigned_wf [OF assms(1)] this] show "x = to_key (clientId a)"
      by auto
  qed (use hit in simp)
qed

section \<open>Properties of the store\<close>

text \<open>
  C1. In every state the store reaches, the slice is consistent: the mapping is an
  object and \<open>clientIdByMenuItemId\<close> is exactly lodash's inverse of
  \<open>menuItemIdByClientId\<close>, or both are still undefined.
\<close>

theorem reachable_mappings_consistent:
  "reachable s \<Longrightarrow> mappings_consistent (store_mappings s)"
  by (rule reachable_consistent_aux)

theorem reachable_mappings_consistent_witness:
  "reachable example_state \<and> mappings_consistent (store_mappings example_state)"
  using reachable_mappings_consistent [OF reachable_example_state] reachable_example_state
  by simp

text \<open>
  C2. In a reachable state whose mapping gives distinct client ids to its menu item
  ids, every pair \<open>(k, v)\<close> of the mapping is found in the inverse as \<open>v \<mapsto> k\<close>, and the
  inverse has as many entries as the mapping.
\<close>

theorem reachable_backward_complete:
  assumes "reachable s" and "menuItemIdByClientId (store_mappings s) = Some f"
    and "distinct (map (to_key \<circ> snd) f)" and "map_of f k = Some v"
  shows "\<exists>b. clientIdByMenuItemId (store_mappings s) = Some b \<and>
             map_of b (to_key v) = Some (JStr k) \<and> length b = length f"
proof -
  have "clientIdByMenuItemId (store_mappings s) = Some (invert f)"
    using assms(1,2) by (rule reachable_backward)
  moreover have "map_of (invert f) (to_key v) = Some (JStr k)"
    using assms(3,4) by (rule invert_complete)
  moreover have "length (invert f) = length f"
    using assms(3) by (rule length_invert_distinct)
  ultimately show ?thesis by blast
qed

theorem reachable_backward_complete_witness:
  "reachable example_state \<and>
   menuItemIdByClientId (store_mappings example_state) = Some [(''12'', JStr ''a'')] \<and>
   distinct (map (to_key \<circ> snd) [(''12'', JStr ''a'')]) \<and>
   map_of [(''12'', JStr ''a'')] ''12'' = Some (JStr ''a'') \<and>
   (\<exists>b. clientIdByMenuItemId (store_mappings example_state) = Some b \<and>
        map_of b (to_key (JStr ''a'')) = Some (JStr ''12'') \<and> length b = 1)"
  using reachable_backward_complete [OF reachable_example_state, of "[(''12'', JStr ''a'')]" "''12''"]
    reachable_example_state
  by (simp add: example_state_def)

text \<open>
  C3. In a reachable state, every entry \<open>c \<mapsto> k\<close> of the inverse comes from the
  mapping: \<open>k\<close> is a string, the mapping has a property \<open>k\<close>, and its value's key is
  \<open>c\<close>. This holds even where two menu items share a client id.
\<close>

theorem reachable_backward_sound:
  assumes "reachable s" and "clientIdByMenuItemId (store_mappings s) = Some b"
    and "map_of b c = Some x"
  shows "\<exists>k v. x = JStr k \<and>
           map_of (spread (menuItemIdByClientId (store_mappings s))) k = Some v \<and> to_key v = c"
proof (cases "menuItemIdByClientId (store_mappings s)")
  case None
  with assms have "b = []" by (intro reachable_backward_undefined_forward)
  with assms(3) show ?thesis by simp
next
  case (Some f)
  with assms(1) have "b = invert f" and "wf_obj f"
    using assms(2) reachable_backward reachable_forward_wf by fastforce+
  with assms(3) Some show ?thesis
    using invert_sound [of f c x] by (simp add: spread_Some)
qed

theorem reachable_backward_sound_witness:
  "reachable example_state \<and>
   clientIdByMenuItemId (store_mappings example_state) = Some [(''a'', JStr ''12'')] \<and>
   map_of [(''a'', JStr ''12'')] ''a'' = Some (JStr ''12'') \<and>
   (\<exists>k v. JStr ''12'' = JStr k \<and>
      map_of (spread (menuItemIdByClientId (store_mappings example_state))) k = Some v \<and>
      to_key v = ''a'')"
  using reachable_backward_sound [OF reachable_example_state, of "[(''a'', JStr ''12'')]" "''a''"]
    reachable_example_state
  by (simp add: example_state_def)

text \<open>
  C4. Assigning the same menu item id and client id twice gives the state of
  assigning once: from any reachable state, the second dispatch changes nothing.
\<close>

theorem assign_idempotent:
  assumes "reachable s" and "action_type a = ASSIGN" and "reducer (Some s) a = Inr s1"
  shows "reducer (Some s1) a = Inr s1"
proof -
  let ?m = "store_mappings s"
  have s1: "store_mappings s1 = ?m\<lparr>menuItemIdByClientId := Some (assigned ?m a),
              clientIdByMenuItemId := Some (invert (assigned ?m a))\<rparr>"
    using assms(2,3) by (rule reducer_ASSIGN)
  have "assigned (store_mappings s1) a = assigned ?m a"
    using s1 assigned_again [OF assigned_wf [OF assms(1)]] by simp
  with assms(2) s1 have "mappings (Some (store_mappings s1)) a = Inr (store_mappings s1)"
    by (simp add: mappings_ASSIGN)
  then show ?thesis by (simp add: reducer_Some_Inr)
qed

text \<open>The state after assigning client id \<open>b\<close> to menu item 12 in \<open>example_state\<close>.\<close>

definition example_reassigned :: store_state where
  "example_reassigned =
     \<lparr>store_mappings = \<lparr>menuItemIdByClientId = Some [(''12'', JStr ''b'')],
                        clientIdByMenuItemId = Some [(''b'', JStr ''12'')]\<rparr>\<rparr>"

lemma example_reassign:
  "reducer (Some example_state) (assign_action (JNum 12) (JStr ''b'')) = Inr example_reassigned"
  by (simp add: reducer_def mappings_def assign_action_def example_state_def
      example_reassigned_def js_eval)

theorem assign_idempotent_witness:
  "reachable example_state \<and>
   action_type (assign_action (JNum 12) (JStr ''b'')) = ASSIGN \<and>
   reducer (Some example_state) (assign_action (JNum 12) (JStr ''b'')) = Inr example_reassigned \<and>
   reducer (Some example_reassigned) (assign_action (JNum 12) (JStr ''b'')) = Inr example_reassigned"
  using assign_idempotent [OF reachable_example_state _ example_reassign]
    reachable_example_state example_reassign
  by (simp add: assign_action_def)

text \<open>
  C5. Overwrite: after \<open>ASSIGN_MENU_ITEM_ID_TO_CLIENT_ID\<close> from a reachable state, when
  the new mapping gives distinct client ids, the mapping sends the menu item id to
  the new client id, the inverse sends the new client id back to the menu item id,
  and no other entry of the inverse (in particular none for the old client id)
  names that menu item.
\<close>

theorem assign_overwrites:
  assumes "reachable s" and "action_type a = ASSIGN" and "reducer (Some s) a = Inr s'"
    and "menuItemIdByClientId (store_mappings s') = Some f'"
    and "distinct (map (to_key \<circ> snd) f')"
  shows "map_of f' (to_key (menuItemId a)) = Some (clientId a) \<and>
         (\<exists>b'. clientIdByMenuItemId (store_mappings s') = Some b' \<and>
            map_of b' (to_key (clientId a)) = Some (JStr (to_key (menuItemId a))) \<and>
            (\<forall>x. map_of b' x = Some (JStr (to_key (menuItemId a))) \<longrightarrow> x = to_key (clientId a)))"
proof -
  have f': "f' = assigned (store_mappings s) a"
    using reducer_ASSIGN [OF assms(2,3)] assms(4) by simp
  note b' = assign_backward [OF assms(1-3) assms(5) [unfolded f']]
  show ?thesis using f' b' by simp
qed

theorem assign_overwrites_witness:
  "reachable example_state \<and>
   action_type (assign_action (JNum 12) (JStr ''b'')) = ASSIGN \<and>
   reducer (Some example_state) (assign_action (JNum 12) (JStr ''b'')) = Inr example_reassigned \<and>
   menuItemIdByClientId (store_mappings example_reassigned) = Some [(''12'', JStr ''b'')] \<and>
   distinct (map (to_key \<circ> snd) [(''12'', JStr ''b'')]) \<and>
   map_of [(''12'', JStr ''b'')] ''12'' = Some (JStr ''b'') \<and>
   clientIdByMenuItemId (store_mappings example_reassigned) = Some [(''b'', JStr ''12'')] \<and>
   map_of [(''b'', JStr ''12'')] ''a'' = None"
  using assign_overwrites [OF reachable_example_state _ example_reassign, of "[(''12'', JStr ''b'')]"]
    reachable_example_state example_reassign
  by (simp add: assign_action_def example_reassigned_def js_eval)

text \<open>
  C6. Bulk replacement discards the prior state: \<open>SET_MENU_ITEMS_TO_CLIENT_ID_MAPPING\<close>
  with an object \<open>m\<close> gives, from any state and from no state at all, the same state,
  whose mapping looks up exactly as \<open>m\<close> and whose inverse is lodash's inverse of \<open>m\<close>.
\<close>

theorem set_mapping_discards_prior:
  assumes "action_type a = SET" and "mapping a = Some m" and "wf_obj m"
  shows "\<exists>s'. reducer (Some s) a = Inr s' \<and> reducer None a = Inr s' \<and>
           map_of (spread (menuItemIdByClientId (store_mappings s'))) = map_of m \<and>
           clientIdByMenuItemId (store_mappings s') = Some (invert m)"
  using assms by (simp add: reducer_def mappings_SET spread_Some lodash_invert_def)

theorem set_mapping_discards_prior_witness:
  "action_type (set_mapping_action [(''7'', JStr ''y'')]) = SET \<and>
   mapping (set_mapping_action [(''7'', JStr ''y'')]) = Some [(''7'', JStr ''y'')] \<and>
   wf_obj [(''7'', JStr ''y'')] \<and>
   reducer (Some example_state) (set_mapping_action [(''7'', JStr ''y'')]) =
     Inr \<lparr>store_mappings = \<lparr>menuItemIdByClientId = Some [(''7'', JStr ''y'')],
                             clientIdByMenuItemId = Some [(''y'', JStr ''7'')]\<rparr>\<rparr>"
proof -
  have wf: "wf_obj [(''7'', JStr ''y'')]" by (simp add: wf_obj_def)
  obtain s' where s': "reducer (Some example_state) (set_mapping_action [(''7'', JStr ''y'')]) = Inr s'"
    and inv: "clientIdByMenuItemId (store_mappings s') = Some (invert [(''7'', JStr ''y'')])"
    using set_mapping_discards_prior [OF _ _ wf, of "set_mapping_action [(''7'', JStr ''y'')]"
        example_state]
    by (auto simp: set_mapping_action_def)
  then show ?thesis using wf
    by (simp add: set_mapping_action_def reducer_def mappings_def js_eval)
qed

text \<open>
  C7. Duplicate client ids: in a reachable state, when several menu item ids map to
  client ids with the same key \<open>c\<close>, the inverse sends \<open>c\<close> to the one listed last
  in the mapping's property order: every other such id \<open>k'\<close> comes before it.
\<close>

theorem backward_last_in_property_order:
  assumes "reachable s" and "menuItemIdByClientId (store_mappings s) = Some f"
    and "clientIdByMenuItemId (store_mappings s) = Some b" and "map_of b c = Some (JStr k)"
    and "map_of f k' = Some v'" and "to_key v' = c"
  shows "k' = k \<or> key_before k' k"
proof -
  have "b = invert f" using reachable_backward [OF assms(1,2)] assms(3) by simp
  with assms(4) have "map_of (invert f) c = Some (JStr k)" by simp
  with reachable_forward_wf [OF assms(1,2)] show ?thesis
    using assms(5,6) by (rule invert_last)
qed

text \<open>A reachable state in which menu items 5 and 12 share client id \<open>x\<close>.\<close>

definition shared_state :: store_state where
  "shared_state =
     \<lparr>store_mappings = \<lparr>menuItemIdByClientId = Some [(''5'', JStr ''x''), (''12'', JStr ''x'')],
                        clientIdByMenuItemId = Some [(''x'', JStr ''12'')]\<rparr>\<rparr>"

lemma reachable_shared_state: "reachable shared_state"
proof (rule reachable.step [OF reachable_initial,
      of "set_mapping_action [(''5'', JStr ''x''), (''12'', JStr ''x'')]"])
  show "wf_action (set_mapping_action [(''5'', JStr ''x''), (''12'', JStr ''x'')])"
    by (simp add: wf_action_def set_mapping_action_def wf_obj_def js_eval)
  show "reducer (Some \<lparr>store_mappings = empty_mappings\<rparr>)
      (set_mapping_action [(''5'', JStr ''x''), (''12'', JStr ''x'')]) = Inr shared_state"
    by (simp add: reducer_def mappings_def set_mapping_action_def shared_state_def js_eval)
qed

theorem backward_last_in_property_order_witness:
  "reachable shared_state \<and>
   menuItemIdByClientId (store_mappings shared_state) = Some [(''5'', JStr ''x''), (''12'', JStr ''x'')] \<and>
   clientIdByMenuItemId (store_mappings shared_state) = Some [(''x'', JStr ''12'')] \<and>
   map_of [(''x'', JStr ''12'')] ''x'' = Some (JStr ''12'') \<and>
   map_of [(''5'', JStr ''x''), (''12'', JStr ''x'')] ''5'' = Some (JStr ''x'') \<and>
   to_key (JStr ''x'') = ''x'' \<and>
   key_before ''5'' ''12''"
  using backward_last_in_property_order [OF reachable_shared_state, of
      "[(''5'', JStr ''x''), (''12'', JStr ''x'')]" "[(''x'', JStr ''12'')]" "''x''" "''12''" "''5''"
      "JStr ''x''"]
    reachable_shared_state
  by (simp add: shared_state_def)

text \<open>
  C8. Assignments to distinct menu items whose ids are array indices commute: from
  any state, dispatching the two ASSIGN actions in either order succeeds and gives
  the same state. So when two menu items are assigned the same client id, which of
  them the inverse sends it to does not depend on which assignment came last.
\<close>

theorem assignments_commute:
  assumes "action_type a1 = ASSIGN" and "action_type a2 = ASSIGN"
    and "is_array_index (to_key (menuItemId a1))" and "is_array_index (to_key (menuItemId a2))"
    and "to_key (menuItemId a1) \<noteq> to_key (menuItemId a2)"
  shows "\<exists>s'. dispatch_all s [a1, a2] = Inr s' \<and> dispatch_all s [a2, a1] = Inr s'"
  using assms obj_set_commute [OF assms(5,3,4), of "spread (menuItemIdByClientId (store_mappings s))"]
  by (simp add: reducer_ASSIGN_step spread_Some wf_obj_set wf_spread_any)

theorem assignments_commute_witness:
  "dispatch_all example_state [assign_action (JNum 12) (JStr ''x''), assign_action (JNum 5) (JStr ''x'')] =
     Inr \<lparr>store_mappings = \<lparr>menuItemIdByClientId = Some [(''5'', JStr ''x''), (''12'', JStr ''x'')],
                             clientIdByMenuItemId = Some [(''x'', JStr ''12'')]\<rparr>\<rparr> \<and>
   dispatch_all example_state [assign_action (JNum 5) (JStr ''x''), assign_action (JNum 12) (JStr ''x'')] =
     Inr \<lparr>store_mappings = \<lparr>menuItemIdByClientId = Some [(''5'', JStr ''x''), (''12'', JStr ''x'')],
                             clientIdByMenuItemId = Some [(''x'', JStr ''12'')]\<rparr>\<rparr>"
proof -
  have "action_type (assign_action (JNum 12) (JStr ''x'')) = ASSIGN \<and>
        action_type (assign_action (JNum 5) (JStr ''x'')) = ASSIGN \<and>
        is_array_index (to_key (menuItemId (assign_action (JNum 12) (JStr ''x'')))) \<and>
        is_array_index (to_key (menuItemId (assign_action (JNum 5) (JStr ''x'')))) \<and>
        to_key (menuItemId (assign_action (JNum 12) (JStr ''x''))) \<noteq>
          to_key (menuItemId (assign_action (JNum 5) (JStr ''x'')))"
    by (simp add: assign_action_def js_eval)
  then obtain s' where
    "dispatch_all example_state [assign_action (JNum 12) (JStr ''x''), assign_action (JNum 5) (JStr ''x'')] = Inr s'"
    "dispatch_all example_state [assign_action (JNum 5) (JStr ''x''), assign_action (JNum 12) (JStr ''x'')] = Inr s'"
    using assignments_commute by blast
  moreover have
    "dispatch_all example_state [assign_action (JNum 12) (JStr ''x''), assign_action (JNum 5) (JStr ''x'')] =
     Inr \<lparr>store_mappings = \<lparr>menuItemIdByClientId = Some [(''5'', JStr ''x''), (''12'', JStr ''x'')],
                             clientIdByMenuItemId = Some [(''x'', JStr ''12'')]\<rparr>\<rparr>"
    by (simp add: example_state_def reducer_def mappings_def assign_action_def js_eval)
  ultimately show ?thesis by simp
qed
text \<open>
  C9. The default slice is \<open>{}\<close>: on an undefined state, any action other than the two
  handled ones yields a slice in which both \<open>menuItemIdByClientId\<close> and
  \<open>clientIdByMenuItemId\<close> are undefined, not empty objects.
\<close>

theorem initial_slice_undefined:
  assumes "action_type a \<noteq> SET" and "action_type a \<noteq> ASSIGN"
  shows "reducer None a =
           Inr \<lparr>store_mappings = \<lparr>menuItemIdByClientId = None, clientIdByMenuItemId = None\<rparr>\<rparr>"
  using assms by (simp add: reducer_def mappings_other empty_mappings_def)

theorem initial_slice_undefined_witness:
  "action_type redux_init_action \<noteq> SET \<and> action_type redux_init_action \<noteq> ASSIGN \<and>
   reducer None redux_init_action =
     Inr \<lparr>store_mappings = \<lparr>menuItemIdByClientId = None, clientIdByMenuItemId = None\<rparr>\<rparr>"
  using initial_slice_undefined [of redux_init_action]
  by (simp add: redux_init_action_def)

text \<open>
  C10. The reducer fails exactly when it is asked to assign an id on an undefined
  state: reading \<open>state.menuItemIdByClientId\<close> then throws a TypeError. Every other
  call returns a state.
\<close>

theorem mappings_error_iff:
  "(\<exists>e. mappings st a = Inl e) \<longleftrightarrow> st = None \<and> action_type a = ASSIGN"
  by (cases st) (auto simp: mappings_def Let_def)

text \<open>
  C11. Every sequence of dispatched actions, from the initial store state, runs
  without an exception and ends in a consistent state.
\<close>

theorem dispatch_sequence_succeeds:
  assumes "list_all wf_action as"
  shows "\<exists>s'. dispatch_all \<lparr>store_mappings = empty_mappings\<rparr> as = Inr s' \<and>
              mappings_consistent (store_mappings s')"
  using dispatch_all_reachable [OF reachable_initial assms] reachable_consistent_aux by blast

theorem dispatch_sequence_succeeds_witness:
  "list_all wf_action [assign_action (JNum 1) (JStr ''q''), set_mapping_action []] \<and>
   (\<exists>s'. dispatch_all \<lparr>store_mappings = empty_mappings\<rparr>
            [assign_action (JNum 1) (JStr ''q''), set_mapping_action []] = Inr s' \<and>
         mappings_consistent (store_mappings s'))"
proof -
  have wf: "list_all wf_action [assign_action (JNum 1) (JStr ''q''), set_mapping_action []]"
    by (simp add: wf_action_def assign_action_def set_mapping_action_def)
  from dispatch_sequence_succeeds [OF wf] wf show ?thesis by blast
qed

text \<open>
  C13. Where the mapping gives distinct client ids, inverting the inverse gives the
  mapping back, with each client id turned into its property key.
\<close>

theorem backward_inverts_back:
  assumes "reachable s" and "menuItemIdByClientId (store_mappings s) = Some f"
    and "distinct (map (to_key \<circ> snd) f)"
  shows "\<exists>b. clientIdByMenuItemId (store_mappings s) = Some b \<and>
             map_of (invert b) = map_option (JStr \<circ> to_key) \<circ> map_of f"
  using reachable_backward [OF assms(1,2)] invert_invert [OF reachable_forward_wf [OF assms(1,2)] assms(3)]
  by (auto simp: fun_eq_iff)

theorem backward_inverts_back_witness:
  "reachable example_state \<and>
   menuItemIdByClientId (store_mappings example_state) = Some [(''12'', JStr ''a'')] \<and>
   distinct (map (to_key \<circ> snd) [(''12'', JStr ''a'')]) \<and>
   (\<exists>b. clientIdByMenuItemId (store_mappings example_state) = Some b \<and>
        map_of (invert b) ''12'' = Some (JStr ''a''))"
proof -
  obtain b where "clientIdByMenuItemId (store_mappings example_state) = Some b"
    and "map_of (invert b) = map_option (JStr \<circ> to_key) \<circ> map_of [(''12'', JStr ''a'')]"
    using backward_inverts_back [OF reachable_example_state, of "[(''12'', JStr ''a'')]"]
    by (auto simp: example_state_def)
  with reachable_example_state show ?thesis by (auto simp: example_state_def)
qed

end
