(* ===== verification/Format_Types.thy ===== *)
theory Format_Types
  imports JS_Object
begin

text \<open>
  The hook \<open>useFormatTypes\<close> of \<open>rich-text/src/component/use-format-types.js\<close>: it reads
  the registered format types and folds them twice. The first fold (lines 27--71)
  asks every format type that has \<open>__experimentalGetPropsForEditableTreePreparation\<close>
  for its selected props, collecting their values as \<open>dependencies\<close> and the objects
  under the type's name in \<open>selectProps\<close>, and sorts the handlers created by
  \<open>__experimentalCreatePrepareEditableTree\<close> into \<open>valueHandlers\<close> (when the type
  also has \<open>__experimentalCreateOnChangeEditableValue\<close>) or \<open>prepareHandlers\<close>. The
  second fold (lines 76--108) builds one change handler per type that has
  \<open>__experimentalCreateOnChangeEditableValue\<close>, passing it the type's select props
  merged with the props of \<open>__experimentalGetPropsForEditableTreeChangeHandler\<close>.

  A format type is a plugin: its callbacks are parameters of the model. Their types
  are type variables: \<open>'s\<close> the registry's \<open>select\<close>, \<open>'d\<close> its \<open>dispatch\<close>, \<open>'v\<close> the
  values of the props objects the callbacks return, \<open>'h\<close> the handlers they create.
  The memoisation of \<open>useSelect\<close> and \<open>__unstableUseDispatchWithMap\<close> decides when
  the folds are re-run, not what they compute, and is not modelled.
\<close>

section \<open>Format types and the callbacks' argument\<close>

text \<open>The object \<open>{ richTextIdentifier: identifier, blockClientId: clientId }\<close>.\<close>

record args =
  richTextIdentifier :: jsval
  blockClientId :: jsval

text \<open>The settings of a registered format type; an absent callback is \<open>None\<close>.\<close>

record ('s, 'd, 'v, 'h) format_type =
  name :: string
  experimentalGetPropsForEditableTreePreparation :: "('s \<Rightarrow> args \<Rightarrow> 'v obj) option"
  experimentalCreatePrepareEditableTree :: "('v obj option \<Rightarrow> args \<Rightarrow> 'h) option"
  experimentalCreateOnChangeEditableValue :: "('v obj option \<Rightarrow> args \<Rightarrow> 'h) option"
  experimentalGetPropsForEditableTreeChangeHandler :: "('d \<Rightarrow> args \<Rightarrow> 'v obj) option"

section \<open>The first fold: select props and editable-tree handlers\<close>

record ('v, 'h) select_acc =
  dependencies :: "'v list"
  selectProps :: "'v obj obj"
  prepareHandlers :: "'h list"
  valueHandlers :: "'h list"

definition empty_select_acc :: "('v, 'h) select_acc" where
  "empty_select_acc =
     \<lparr>dependencies = [], selectProps = [], prepareHandlers = [], valueHandlers = []\<rparr>"

text \<open>
  One call of the reducer callback (lines 28--64). \<open>selected\<close> stays \<open>undefined\<close>
  (\<open>None\<close>) when the type has no preparation props getter; \<open>Object.values(selected)\<close>
  lists the values in property order.
\<close>

definition select_step ::
  "'s \<Rightarrow> args \<Rightarrow> ('v, 'h) select_acc \<Rightarrow> ('s, 'd, 'v, 'h) format_type \<Rightarrow> ('v, 'h) select_acc" where
  "select_step select a acc settings =
     (let (acc1, selected) =
        (case experimentalGetPropsForEditableTreePreparation settings of
           None \<Rightarrow> (acc, None)
         | Some getProps \<Rightarrow>
             (let sel = getProps select a
              in (acc\<lparr>dependencies := dependencies acc @ map snd sel,
                      selectProps := obj_set (selectProps acc) (name settings) sel\<rparr>,
                  Some sel)))
      in case experimentalCreatePrepareEditableTree settings of
           None \<Rightarrow> acc1
         | Some createPrepare \<Rightarrow>
             (let handler = createPrepare selected a
              in if experimentalCreateOnChangeEditableValue settings \<noteq> None
                 then acc1\<lparr>valueHandlers := valueHandlers acc1 @ [handler]\<rparr>
                 else acc1\<lparr>prepareHandlers := prepareHandlers acc1 @ [handler]\<rparr>))"

definition select_fold ::
  "'s \<Rightarrow> args \<Rightarrow> ('s, 'd, 'v, 'h) format_type list \<Rightarrow> ('v, 'h) select_acc" where
  "select_fold select a formatTypes = foldl (select_step select a) empty_select_acc formatTypes"

section \<open>The second fold: change handlers\<close>

text \<open>
  One call of the second reducer callback (lines 76--107): \<open>dispatcher\<close> stays
  \<open>undefined\<close> unless the type has a change-handler props getter, in which case it
  is \<open>{ ...selectProps[settings.name], ...dispatcherProps }\<close>.
\<close>

definition change_step ::
  "'d \<Rightarrow> args \<Rightarrow> 'v obj obj \<Rightarrow> 'h list \<Rightarrow> ('s, 'd, 'v, 'h) format_type \<Rightarrow> 'h list" where
  "change_step dispatch a props acc settings =
     (let dispatcher =
        (case experimentalGetPropsForEditableTreeChangeHandler settings of
           None \<Rightarrow> None
         | Some getProps \<Rightarrow>
             Some (obj_assign (obj_assign [] (spread (map_of props (name settings))))
                     (getProps dispatch a)))
      in case experimentalCreateOnChangeEditableValue settings of
           None \<Rightarrow> acc
         | Some createOnChange \<Rightarrow> acc @ [createOnChange dispatcher a])"

definition change_fold ::
  "'d \<Rightarrow> args \<Rightarrow> 'v obj obj \<Rightarrow> ('s, 'd, 'v, 'h) format_type list \<Rightarrow> 'h list" where
  "change_fold dispatch a props formatTypes = foldl (change_step dispatch a props) [] formatTypes"

section \<open>The hook\<close>

record ('s, 'd, 'v, 'h) format_types_result =
  result_formatTypes :: "('s, 'd, 'v, 'h) format_type list"
  result_prepareHandlers :: "'h list"
  result_valueHandlers :: "'h list"
  result_changeHandlers :: "'h list"
  result_dependencies :: "'v list"

definition useFormatTypes ::
  "('s, 'd, 'v, 'h) format_type list \<Rightarrow> 's \<Rightarrow> 'd \<Rightarrow> jsval \<Rightarrow> jsval \<Rightarrow>
   ('s, 'd, 'v, 'h) format_types_result" where
  "useFormatTypes formatTypes select dispatch clientId identifier =
     (let a = \<lparr>richTextIdentifier = identifier, blockClientId = clientId\<rparr>;
          acc = select_fold select a formatTypes;
          changeHandlers = change_fold dispatch a (selectProps acc) formatTypes
      in \<lparr>result_formatTypes = formatTypes,
          result_prepareHandlers = prepareHandlers acc,
          result_valueHandlers = valueHandlers acc,
          result_changeHandlers = changeHandlers,
          result_dependencies = dependencies acc\<rparr>)"

section \<open>Reference characterisation\<close>

text \<open>
  What one format type contributes, stated without the accumulator: its selected
  props (\<open>None\<close> for \<open>undefined\<close>), the editable-tree handler it creates, and the
  change handler it creates given the final \<open>selectProps\<close>.
\<close>

definition selected_of :: "'s \<Rightarrow> args \<Rightarrow> ('s, 'd, 'v, 'h) format_type \<Rightarrow> 'v obj option" where
  "selected_of select a ft =
     map_option (\<lambda>g. g select a) (experimentalGetPropsForEditableTreePreparation ft)"

definition tree_handler_of :: "'s \<Rightarrow> args \<Rightarrow> ('s, 'd, 'v, 'h) format_type \<Rightarrow> 'h list" where
  "tree_handler_of select a ft =
     (case experimentalCreatePrepareEditableTree ft of
        None \<Rightarrow> []
      | Some c \<Rightarrow> [c (selected_of select a ft) a])"

definition dispatcher_of :: "'d \<Rightarrow> args \<Rightarrow> 'v obj obj \<Rightarrow> ('s, 'd, 'v, 'h) format_type \<Rightarrow> 'v obj option" where
  "dispatcher_of dispatch a props ft =
     map_option (\<lambda>g. obj_assign (spread (map_of props (name ft))) (g dispatch a))
       (experimentalGetPropsForEditableTreeChangeHandler ft)"

definition change_handler_of :: "'d \<Rightarrow> args \<Rightarrow> 'v obj obj \<Rightarrow> ('s, 'd, 'v, 'h) format_type \<Rightarrow> 'h list" where
  "change_handler_of dispatch a props ft =
     (case experimentalCreateOnChangeEditableValue ft of
        None \<Rightarrow> []
      | Some c \<Rightarrow> [c (dispatcher_of dispatch a props ft) a])"

abbreviation has_on_change :: "('s, 'd, 'v, 'h) format_type \<Rightarrow> bool" where
  "has_on_change ft \<equiv> experimentalCreateOnChangeEditableValue ft \<noteq> None"

abbreviation has_prepare :: "('s, 'd, 'v, 'h) format_type \<Rightarrow> bool" where
  "has_prepare ft \<equiv> experimentalCreatePrepareEditableTree ft \<noteq> None"

subsection \<open>One step, field by field\<close>

lemma select_step_fields [simp]:
  "dependencies (select_step select a acc ft) =
     dependencies acc @ (case selected_of select a ft of None \<Rightarrow> [] | Some sel \<Rightarrow> map snd sel)"
  "selectProps (select_step select a acc ft) =
     (case selected_of select a ft of
        None \<Rightarrow> selectProps acc
      | Some sel \<Rightarrow> obj_set (selectProps acc) (name ft) sel)"
  "prepareHandlers (select_step select a acc ft) =
     prepareHandlers acc @ (if has_on_change ft then [] else tree_handler_of select a ft)"
  "valueHandlers (select_step select a acc ft) =
     valueHandlers acc @ (if has_on_change ft then tree_handler_of select a ft else [])"
  by (simp_all add: select_step_def selected_of_def tree_handler_of_def Let_def
      split: option.splits)

lemma change_step_eq:
  "change_step dispatch a props acc ft = acc @ change_handler_of dispatch a props ft"
  by (simp add: change_step_def change_handler_of_def dispatcher_of_def Let_def
      obj_assign_Nil_spread split: option.splits)

lemma select_fold_snoc:
  "select_fold select a (fts @ [ft]) = select_step select a (select_fold select a fts) ft"
  by (simp add: select_fold_def)

lemma select_fold_lists:
  "prepareHandlers (select_fold select a fts) =
     concat (map (tree_handler_of select a) (filter (\<lambda>ft. \<not> has_on_change ft) fts))"
  "valueHandlers (select_fold select a fts) =
     concat (map (tree_handler_of select a) (filter has_on_change fts))"
  "dependencies (select_fold select a fts) =
     concat (map (\<lambda>ft. case selected_of select a ft of None \<Rightarrow> [] | Some sel \<Rightarrow> map snd sel) fts)"
  by (induction fts rule: rev_induct)
     (simp_all add: select_fold_snoc, simp_all add: select_fold_def empty_select_acc_def)

lemma change_fold_eq:
  "change_fold dispatch a props fts = concat (map (change_handler_of dispatch a props) fts)"
proof -
  have "\<And>acc. foldl (change_step dispatch a props) acc fts =
      acc @ concat (map (change_handler_of dispatch a props) fts)"
    by (induction fts) (simp_all add: change_step_eq)
  then show ?thesis by (simp add: change_fold_def)
qed

lemma length_tree_handler_of:
  "length (tree_handler_of select a ft) = (if has_prepare ft then 1 else 0)"
  by (simp add: tree_handler_of_def split: option.splits)

lemma length_change_handler_of:
  "length (change_handler_of dispatch a props ft) = (if has_on_change ft then 1 else 0)"
  by (simp add: change_handler_of_def split: option.splits)

lemma length_concat_singletons:
  assumes "\<And>x. length (f x) = (if P x then 1 else 0)"
  shows "length (concat (map f xs)) = length (filter P xs)"
  using assms by (induction xs) auto

lemma length_tree_handlers:
  "length (concat (map (tree_handler_of select a) xs)) = length (filter has_prepare xs)"
  by (rule length_concat_singletons) (rule length_tree_handler_of)

lemma useFormatTypes_fields [simp]:
  "result_prepareHandlers (useFormatTypes fts select dispatch clientId identifier) =
     prepareHandlers (select_fold select \<lparr>richTextIdentifier = identifier, blockClientId = clientId\<rparr> fts)"
  "result_valueHandlers (useFormatTypes fts select dispatch clientId identifier) =
     valueHandlers (select_fold select \<lparr>richTextIdentifier = identifier, blockClientId = clientId\<rparr> fts)"
  "result_dependencies (useFormatTypes fts select dispatch clientId identifier) =
     dependencies (select_fold select \<lparr>richTextIdentifier = identifier, blockClientId = clientId\<rparr> fts)"
  "result_changeHandlers (useFormatTypes fts select dispatch clientId identifier) =
     change_fold dispatch \<lparr>richTextIdentifier = identifier, blockClientId = clientId\<rparr>
       (selectProps (select_fold select \<lparr>richTextIdentifier = identifier, blockClientId = clientId\<rparr> fts)) fts"
  by (simp_all add: useFormatTypes_def Let_def)

section \<open>Properties of the hook\<close>

abbreviation hook_args :: "jsval \<Rightarrow> jsval \<Rightarrow> args" where
  "hook_args clientId identifier \<equiv> \<lparr>richTextIdentifier = identifier, blockClientId = clientId\<rparr>"

text \<open>
  C14. The first reduce sorts the editable-tree handlers as a filter would: the
  prepare handlers are those created by the types without an on-change callback,
  the value handlers those created by the types with one, each in the order of the
  registered format types.
\<close>

theorem useFormatTypes_tree_handlers:
  "result_prepareHandlers (useFormatTypes fts select dispatch clientId identifier) =
     concat (map (tree_handler_of select (hook_args clientId identifier))
                 (filter (\<lambda>ft. \<not> has_on_change ft) fts)) \<and>
   result_valueHandlers (useFormatTypes fts select dispatch clientId identifier) =
     concat (map (tree_handler_of select (hook_args clientId identifier)) (filter has_on_change fts))"
  by (simp add: select_fold_lists)

text \<open>
  C15. Every format type with a prepare-editable-tree callback contributes exactly
  one handler, to exactly one of the two lists.
\<close>

theorem tree_handlers_partition:
  "length (result_prepareHandlers (useFormatTypes fts select dispatch clientId identifier)) +
   length (result_valueHandlers (useFormatTypes fts select dispatch clientId identifier)) =
   length (filter has_prepare fts)"
proof -
  have p: "length (result_prepareHandlers (useFormatTypes fts select dispatch clientId identifier)) =
      length (filter (\<lambda>ft. \<not> has_on_change ft \<and> has_prepare ft) fts)"
    by (simp only: useFormatTypes_fields select_fold_lists length_tree_handlers filter_filter)
  have v: "length (result_valueHandlers (useFormatTypes fts select dispatch clientId identifier)) =
      length (filter (\<lambda>ft. has_on_change ft \<and> has_prepare ft) fts)"
    by (simp only: useFormatTypes_fields select_fold_lists length_tree_handlers filter_filter)
  show ?thesis
    using p v length_filter_split [of has_on_change has_prepare fts] by linarith
qed

text \<open>
  C16. The dependencies are the values of every selected-props object, object by
  object in the order of the format types, each in its property order.
\<close>

theorem useFormatTypes_dependencies:
  "result_dependencies (useFormatTypes fts select dispatch clientId identifier) =
     concat (map (\<lambda>ft. case selected_of select (hook_args clientId identifier) ft of
                         None \<Rightarrow> [] | Some sel \<Rightarrow> map snd sel) fts)"
  by (simp add: select_fold_lists)

text \<open>
  C17. \<open>selectProps[name]\<close> is the object selected by the last format type of that
  name that has a preparation props getter, and undefined when there is none.
\<close>

theorem selectProps_last_named:
  "map_of (selectProps (select_fold select a fts)) n =
     (case find (\<lambda>ft. name ft = n \<and> experimentalGetPropsForEditableTreePreparation ft \<noteq> None)
                (rev fts) of
        None \<Rightarrow> None
      | Some ft \<Rightarrow> selected_of select a ft)"
proof (induction fts rule: rev_induct)
  case Nil
  then show ?case by (simp add: select_fold_def empty_select_acc_def)
next
  case (snoc ft fts)
  then show ?case
    by (cases "experimentalGetPropsForEditableTreePreparation ft")
       (auto simp: select_fold_snoc selected_of_def map_of_obj_set)
qed

text \<open>
  C18. The second reduce builds, type by type in order, one change handler for each
  type with an on-change callback, passing it \<open>undefined\<close> when the type has no
  change-handler props getter and otherwise the type's select props overridden by
  the getter's props.
\<close>

theorem useFormatTypes_change_handlers:
  "result_changeHandlers (useFormatTypes fts select dispatch clientId identifier) =
     concat (map (change_handler_of dispatch (hook_args clientId identifier)
                    (selectProps (select_fold select (hook_args clientId identifier) fts))) fts)"
  by (simp add: change_fold_eq)

text \<open>
  C19. There are never more value handlers than change handlers, and there are as
  many exactly when every format type with an on-change callback also has a
  prepare-editable-tree callback.
\<close>

theorem value_change_handlers_aligned:
  "length (result_valueHandlers (useFormatTypes fts select dispatch clientId identifier))
     \<le> length (result_changeHandlers (useFormatTypes fts select dispatch clientId identifier)) \<and>
   (length (result_valueHandlers (useFormatTypes fts select dispatch clientId identifier)) =
      length (result_changeHandlers (useFormatTypes fts select dispatch clientId identifier))
    \<longleftrightarrow> (\<forall>ft \<in> set fts. has_on_change ft \<longrightarrow> has_prepare ft))"
proof -
  let ?a = "hook_args clientId identifier"
  have v: "length (result_valueHandlers (useFormatTypes fts select dispatch clientId identifier)) =
      length (filter (\<lambda>ft. has_on_change ft \<and> has_prepare ft) fts)"
    using length_concat_singletons [of "tree_handler_of select ?a" has_prepare "filter has_on_change fts"]
    by (simp add: select_fold_lists length_tree_handler_of filter_filter)
  have c: "length (result_changeHandlers (useFormatTypes fts select dispatch clientId identifier)) =
      length (filter has_on_change fts)"
    by (simp add: change_fold_eq length_concat_singletons length_change_handler_of)
  have "length (filter (\<lambda>ft. has_on_change ft \<and> has_prepare ft) fts) \<le> length (filter has_on_change fts)"
    by (metis filter_filter length_filter_le)
  with v c show ?thesis by (simp add: length_filter_conj_eq)
qed

subsection \<open>Two concrete format types\<close>

text \<open>
  Callbacks that hand back what they receive, so that a handler shows its argument:
  \<open>annotation_type\<close> selects \<open>{ isActive: 1 }\<close> and has both editable-tree callbacks
  but no change-handler props getter; \<open>plain_type\<close> has only a prepare callback.
\<close>

definition annotation_type :: "(unit, unit, nat, nat obj option) format_type" where
  "annotation_type =
     \<lparr>name = ''core/annotation'',
      experimentalGetPropsForEditableTreePreparation = Some (\<lambda>_ _. [(''isActive'', 1)]),
      experimentalCreatePrepareEditableTree = Some (\<lambda>sel _. sel),
      experimentalCreateOnChangeEditableValue = Some (\<lambda>d _. d),
      experimentalGetPropsForEditableTreeChangeHandler = None\<rparr>"

definition plain_type :: "(unit, unit, nat, nat obj option) format_type" where
  "plain_type =
     \<lparr>name = ''core/plain'',
      experimentalGetPropsForEditableTreePreparation = None,
      experimentalCreatePrepareEditableTree = Some (\<lambda>sel _. sel),
      experimentalCreateOnChangeEditableValue = None,
      experimentalGetPropsForEditableTreeChangeHandler = None\<rparr>"

lemmas format_type_eval = useFormatTypes_def select_fold_def change_fold_def select_step_def
  change_step_def empty_select_acc_def annotation_type_def plain_type_def Let_def

theorem value_change_handlers_aligned_witness:
  "has_on_change annotation_type \<and> has_prepare annotation_type \<and> \<not> has_on_change plain_type \<and>
   length (result_valueHandlers (useFormatTypes [annotation_type, plain_type] () () JUndefined JUndefined)) =
   length (result_changeHandlers (useFormatTypes [annotation_type, plain_type] () () JUndefined JUndefined))"
proof -
  have "has_on_change annotation_type" "has_prepare annotation_type" "\<not> has_on_change plain_type"
    by (simp_all add: annotation_type_def plain_type_def)
  moreover from this have "\<forall>ft \<in> set [annotation_type, plain_type]. has_on_change ft \<longrightarrow> has_prepare ft"
    by auto
  ultimately show ?thesis
    using value_change_handlers_aligned [of "[annotation_type, plain_type]" "()" "()" JUndefined JUndefined]
    by blast
qed

end
