(* ===== verification/Block_Editor_Area.thy ===== *)
theory Block_Editor_Area
  imports JS_Object
begin

text \<open>
  The component \<open>BlockEditorArea\<close> of
  \<open>edit-navigation/src/components/menu-editor/block-editor-area.js\<close>. At each render it
  reads from the block-editor store the first top-level block, the navigation mode
  and the selection start (lines 40--60), and from the core store the menu of its
  \<open>menuId\<close> prop (lines 62--64). It keeps one piece of state, \<open>autoAddPages\<close>,
  initialised from the menu's \<open>auto_add\<close> when it mounts (lines 66--71). After a
  render React runs its two effects when their dependencies changed (always after the
  first render): the first copies \<open>menu.auto_add\<close> into the state (lines 73--75), the
  second selects the first block (lines 78--83). The auto-add checkbox's
  \<open>onChange\<close> (lines 121--127) flips the state and saves the menu with the flipped
  flag, using the values of the render that created it.

  The model is a step function over render and toggle events. Its state is the
  component's hook state: the \<open>useState\<close> slot, the dependency values each effect
  last saw, and the values the current \<open>onChange\<close> closure captured. Its outputs are
  the render's visible decisions and the store actions the effects and the handler
  dispatch. The inductive \<open>area_reachable\<close> collects the hook states that mounts,
  re-renders and clicks can commit while the stores satisfy a condition; every run
  stays inside it. The cards, buttons and block list are rendered by library
  components and are not modelled.
\<close>

section \<open>What the component reads\<close>

text \<open>
  The part of the block-editor store the selectors read: the client ids of the
  top-level blocks in order (\<open>getBlocks\<close>), the client ids \<open>getBlock\<close> finds, the
  selection start (\<open>getBlockSelectionStart\<close>: a client id, or \<open>null\<close>) and the
  navigation mode flag; and the menus of the core store by id (\<open>getMenu\<close>).
\<close>

record block_editor_store =
  block_order :: "string list"
  block_ids :: "string list"
  selection_start :: jsval
  navigation_mode :: bool

record core_store =
  menus :: "jsval obj obj"

definition getMenu :: "core_store \<Rightarrow> jsval \<Rightarrow> jsval obj option" where
  "getMenu core menuId = map_of (menus core) (to_key menuId)"

text \<open>The object returned by the first \<open>useSelect\<close> (lines 40--60).\<close>

record area_selection =
  rootBlockId :: jsval
  isNavigationModeActive :: bool
  hasSelectedBlock :: bool

definition select_area :: "block_editor_store \<Rightarrow> area_selection" where
  "select_area be =
     \<lparr>rootBlockId = (case block_order be of [] \<Rightarrow> JUndefined | c # _ \<Rightarrow> JStr c),
      isNavigationModeActive = navigation_mode be,
      hasSelectedBlock =
        (truthy (selection_start be) \<and>
         (case selection_start be of JStr c \<Rightarrow> c \<in> set (block_ids be) | _ \<Rightarrow> False))\<rparr>"

section \<open>State, view and dispatched actions\<close>

record area_state =
  autoAddPages :: jsval
  menuId_dep :: jsval
  rootBlockId_dep :: jsval
  closure_menu :: "jsval obj option"
  closure_autoAddPages :: jsval

text \<open>
  What a render decides: whether the toolbar has the class \<open>is-hidden\<close>, whether it
  contains the block toolbar, and the checkbox's \<open>checked\<close> value.
\<close>

record area_view =
  toolbar_hidden :: bool
  block_toolbar_shown :: bool
  checkbox_checked :: jsval

datatype area_call = SelectBlock jsval | SaveMenu "jsval obj"

section \<open>The component\<close>

text \<open>\<open>autoAdd\<close>, the initial value of the state (lines 66--69).\<close>

definition initial_autoAdd :: "jsval obj option \<Rightarrow> jsval" where
  "initial_autoAdd menu = (case menu of None \<Rightarrow> JBool False | Some m \<Rightarrow> get_prop m ''auto_add'')"

definition area_view_of :: "area_selection \<Rightarrow> jsval \<Rightarrow> area_view" where
  "area_view_of sel autoAddPages' =
     \<lparr>toolbar_hidden = isNavigationModeActive sel,
      block_toolbar_shown = hasSelectedBlock sel,
      checkbox_checked = autoAddPages'\<rparr>"

text \<open>The first effect: \<open>setAutoAddPages(menu.auto_add)\<close>, a TypeError while the menu is undefined.\<close>

definition menu_effect :: "jsval obj option \<Rightarrow> area_state \<Rightarrow> js_error + area_state" where
  "menu_effect menu st =
     (case menu of
        None \<Rightarrow> Inl (TypeError ''Cannot read properties of undefined'')
      | Some m \<Rightarrow> Inr (st\<lparr>autoAddPages := get_prop m ''auto_add''\<rparr>))"

text \<open>The second effect: \<open>if (rootBlockId) selectBlock(rootBlockId)\<close>.\<close>

definition select_effect :: "jsval \<Rightarrow> area_call list" where
  "select_effect root = (if truthy root then [SelectBlock root] else [])"

text \<open>
  One render and commit. \<open>useState\<close> takes its argument only on the first render;
  each effect runs when it has not run yet or its dependency changed, in the order
  of declaration; an exception in the first one aborts the commit.
\<close>

definition BlockEditorArea ::
  "area_state option \<Rightarrow> jsval \<Rightarrow> block_editor_store \<Rightarrow> core_store \<Rightarrow>
   js_error + (area_state \<times> area_view \<times> area_call list)" where
  "BlockEditorArea st menuId be core =
     (let sel = select_area be;
          menu = getMenu core menuId;
          autoAddPages' = (case st of None \<Rightarrow> initial_autoAdd menu | Some s \<Rightarrow> autoAddPages s);
          run_menu = (case st of None \<Rightarrow> True | Some s \<Rightarrow> menuId_dep s \<noteq> menuId);
          run_select = (case st of None \<Rightarrow> True | Some s \<Rightarrow> rootBlockId_dep s \<noteq> rootBlockId sel);
          rendered = \<lparr>autoAddPages = autoAddPages', menuId_dep = menuId,
                      rootBlockId_dep = rootBlockId sel, closure_menu = menu,
                      closure_autoAddPages = autoAddPages'\<rparr>
      in case (if run_menu then menu_effect menu rendered else Inr rendered) of
           Inl e \<Rightarrow> Inl e
         | Inr committed \<Rightarrow>
             Inr (committed, area_view_of sel autoAddPages',
                  if run_select then select_effect (rootBlockId sel) else []))"

text \<open>
  The checkbox's \<open>onChange\<close>: \<open>setAutoAddPages(!autoAddPages)\<close> and
  \<open>saveMenu({ ...menu, auto_add: !autoAddPages })\<close>, with the values of the render.
\<close>

definition toggle_autoAdd :: "area_state \<Rightarrow> area_state \<times> area_call list" where
  "toggle_autoAdd s =
     (let flipped = JBool (\<not> truthy (closure_autoAddPages s))
      in (s\<lparr>autoAddPages := flipped\<rparr>,
          [SaveMenu (obj_set (spread (closure_menu s)) ''auto_add'' flipped)]))"

section \<open>Runs\<close>

text \<open>
  The events the component sees: a render with the current \<open>menuId\<close> prop and
  stores, or a click on the checkbox. Before the first render there is no checkbox
  to click.
\<close>

datatype area_event = Render jsval block_editor_store core_store | ToggleAutoAdd

fun area_step ::
  "area_state option \<Rightarrow> area_event \<Rightarrow> js_error + (area_state option \<times> area_call list)" where
  "area_step st (Render menuId be core) =
     (case BlockEditorArea st menuId be core of
        Inl e \<Rightarrow> Inl e
      | Inr (s, _, calls) \<Rightarrow> Inr (Some s, calls))"
| "area_step None ToggleAutoAdd = Inr (None, [])"
| "area_step (Some s) ToggleAutoAdd = (case toggle_autoAdd s of (s', calls) \<Rightarrow> Inr (Some s', calls))"

fun area_run ::
  "area_state option \<Rightarrow> area_event list \<Rightarrow> js_error + (area_state option \<times> area_call list)" where
  "area_run st [] = Inr (st, [])"
| "area_run st (e # es) =
     (case area_step st e of
        Inl err \<Rightarrow> Inl err
      | Inr (st', calls) \<Rightarrow>
          (case area_run st' es of
             Inl err \<Rightarrow> Inl err
           | Inr (st'', calls') \<Rightarrow> Inr (st'', calls @ calls')))"

section \<open>Reachable component states\<close>

text \<open>
  The REST API gives every menu a boolean \<open>auto_add\<close>; \<open>menus_boolean\<close> says a core
  store keeps to that.
\<close>

definition is_bool :: "jsval \<Rightarrow> bool" where
  "is_bool v = (case v of JBool _ \<Rightarrow> True | _ \<Rightarrow> False)"

definition menus_boolean :: "core_store \<Rightarrow> bool" where
  "menus_boolean core = list_all (\<lambda>(k, m). is_bool (get_prop m ''auto_add'')) (menus core)"

text \<open>
  The hook states React can hold for the component while every store it renders with
  satisfies \<open>ok\<close>: a committed mount, a committed re-render, or a checkbox click
  (whose state update is then committed by the next render).
\<close>

inductive area_reachable :: "(core_store \<Rightarrow> bool) \<Rightarrow> area_state \<Rightarrow> bool" for ok where
  mount: "ok core \<Longrightarrow> BlockEditorArea None menuId be core = Inr (s, v, calls) \<Longrightarrow>
          area_reachable ok s"
| render: "area_reachable ok s \<Longrightarrow> ok core \<Longrightarrow>
           BlockEditorArea (Some s) menuId be core = Inr (s', v, calls) \<Longrightarrow> area_reachable ok s'"
| toggle: "area_reachable ok s \<Longrightarrow> area_reachable ok (fst (toggle_autoAdd s))"

text \<open>A run whose renders all see stores satisfying \<open>ok\<close>.\<close>

abbreviation renders_with :: "(core_store \<Rightarrow> bool) \<Rightarrow> area_event list \<Rightarrow> bool" where
  "renders_with ok es \<equiv> list_all (\<lambda>e. case e of Render _ _ core \<Rightarrow> ok core | ToggleAutoAdd \<Rightarrow> True) es"

section \<open>Lemmas on renders\<close>

lemma rerender_same_deps:
  assumes "menuId_dep s = menuId" and "rootBlockId_dep s = rootBlockId (select_area be)"
  shows "BlockEditorArea (Some s) menuId be core =
           Inr (s\<lparr>closure_menu := getMenu core menuId, closure_autoAddPages := autoAddPages s\<rparr>,
                area_view_of (select_area be) (autoAddPages s), [])"
  using assms by (simp add: BlockEditorArea_def Let_def)

lemma mount_loaded:
  assumes "getMenu core menuId = Some m"
  shows "BlockEditorArea None menuId be core =
           Inr (\<lparr>autoAddPages = get_prop m ''auto_add'', menuId_dep = menuId,
                 rootBlockId_dep = rootBlockId (select_area be), closure_menu = Some m,
                 closure_autoAddPages = get_prop m ''auto_add''\<rparr>,
                area_view_of (select_area be) (get_prop m ''auto_add''),
                select_effect (rootBlockId (select_area be)))"
  using assms by (simp add: BlockEditorArea_def Let_def menu_effect_def initial_autoAdd_def)

lemma toggle_autoAdd_eq:
  "toggle_autoAdd s =
     (s\<lparr>autoAddPages := JBool (\<not> truthy (closure_autoAddPages s))\<rparr>,
      [SaveMenu (obj_set (spread (closure_menu s)) ''auto_add'' (JBool (\<not> truthy (closure_autoAddPages s))))])"
  by (simp add: toggle_autoAdd_def Let_def)

lemma area_run_append:
  "area_run st (es @ es') =
     (case area_run st es of
        Inl err \<Rightarrow> Inl err
      | Inr (st', calls) \<Rightarrow>
          (case area_run st' es' of Inl err \<Rightarrow> Inl err | Inr (st'', calls') \<Rightarrow> Inr (st'', calls @ calls')))"
  by (induction st es rule: area_run.induct) (auto split: sum.splits prod.splits)

lemma rerenders_quiet:
  assumes "menuId_dep s = menuId" and "rootBlockId_dep s = rootBlockId (select_area be)"
  shows "\<exists>s'. area_run (Some s) (replicate n (Render menuId be core)) = Inr (Some s', []) \<and>
              menuId_dep s' = menuId \<and> rootBlockId_dep s' = rootBlockId (select_area be)"
  using assms
proof (induction n arbitrary: s)
  case (Suc n)
  let ?s1 = "s\<lparr>closure_menu := getMenu core menuId, closure_autoAddPages := autoAddPages s\<rparr>"
  have "area_step (Some s) (Render menuId be core) = Inr (Some ?s1, [])"
    using rerender_same_deps [OF Suc.prems] by simp
  moreover obtain s' where "area_run (Some ?s1) (replicate n (Render menuId be core)) = Inr (Some s', [])"
    and "menuId_dep s' = menuId" and "rootBlockId_dep s' = rootBlockId (select_area be)"
    using Suc.IH [of ?s1] Suc.prems by auto
  ultimately show ?case by auto
qed simp

section \<open>Lemmas on reachable states\<close>

lemma getMenu_boolean:
  "menus_boolean core \<Longrightarrow> getMenu core menuId = Some m \<Longrightarrow> is_bool (get_prop m ''auto_add'')"
  by (auto simp: menus_boolean_def getMenu_def list_all_iff dest: map_of_SomeD)

lemma BlockEditorArea_Inr:
  assumes "BlockEditorArea st menuId be core = Inr (s, v, calls)"
  shows "closure_autoAddPages s =
           (case st of None \<Rightarrow> initial_autoAdd (getMenu core menuId) | Some s0 \<Rightarrow> autoAddPages s0) \<and>
         (autoAddPages s = closure_autoAddPages s \<or>
          (\<exists>m. getMenu core menuId = Some m \<and> autoAddPages s = get_prop m ''auto_add''))"
  using assms
  by (auto simp: BlockEditorArea_def Let_def menu_effect_def split: if_splits option.splits sum.splits)

lemma area_reachable_boolean:
  assumes "area_reachable menus_boolean s"
  shows "is_bool (autoAddPages s) \<and> is_bool (closure_autoAddPages s)"
  using assms
proof (induction rule: area_reachable.induct)
  case (mount core menuId be s v calls)
  then show ?case using BlockEditorArea_Inr [OF mount.hyps(2)] getMenu_boolean [OF mount.hyps(1)]
    by (cases "getMenu core menuId") (auto simp: initial_autoAdd_def is_bool_def)
next
  case (render s core menuId be s' v calls)
  then show ?case using BlockEditorArea_Inr [OF render.hyps(3)] getMenu_boolean [OF render.hyps(2)]
    by auto
next
  case (toggle s)
  then show ?case by (simp add: toggle_autoAdd_eq is_bool_def)
qed

lemma area_run_reachable:
  "pred_option (area_reachable ok) st \<Longrightarrow> renders_with ok es \<Longrightarrow>
   area_run st es = Inr (Some s', calls) \<Longrightarrow> area_reachable ok s'"
proof (induction es arbitrary: st calls)
  case Nil
  then show ?case by simp
next
  case (Cons e es)
  show ?case
  proof (cases e)
    case (Render menuId be core)
    from Cons.prems(3) obtain s1 v c1 c2 where
      run1: "BlockEditorArea st menuId be core = Inr (s1, v, c1)" and
      rest: "area_run (Some s1) es = Inr (Some s', c2)"
      unfolding Render by (auto split: sum.splits prod.splits)
    have "area_reachable ok s1"
      using Cons.prems(1,2) Render run1
      by (cases st) (auto intro: area_reachable.mount area_reachable.render)
    with Cons.IH [OF _ _ rest] Cons.prems(2) show ?thesis by simp
  next
    case ToggleAutoAdd
    from Cons.prems(3) obtain st1 c1 c2 where
      step: "area_step st ToggleAutoAdd = Inr (st1, c1)" and
      rest: "area_run st1 es = Inr (Some s', c2)"
      unfolding ToggleAutoAdd by (auto split: sum.splits prod.splits)
    have "pred_option (area_reachable ok) st1"
    proof (cases st)
      case (Some s0)
      with Cons.prems(1) step area_reachable.toggle [of ok s0] show ?thesis
        by (auto split: prod.splits)
    qed (use step in simp)
    with Cons.IH [OF _ _ rest] Cons.prems(2) ToggleAutoAdd show ?thesis by simp
  qed
qed

section \<open>Example stores\<close>

text \<open>Menu 1, not auto-adding pages, and a block editor holding one top-level block.\<close>

definition main_menu :: "jsval obj" where
  "main_menu = [(''auto_add'', JBool False), (''id'', JNum 1), (''name'', JStr ''Main'')]"

definition core_with_menu :: core_store where
  "core_with_menu = \<lparr>menus = [(''1'', main_menu)]\<rparr>"

definition core_empty :: core_store where
  "core_empty = \<lparr>menus = []\<rparr>"

definition one_block :: block_editor_store where
  "one_block = \<lparr>block_order = [''root''], block_ids = [''root''], selection_start = JStr ''root'',
                navigation_mode = False\<rparr>"

lemmas area_eval = BlockEditorArea_def Let_def getMenu_def select_area_def menu_effect_def
  initial_autoAdd_def area_view_of_def select_effect_def toggle_autoAdd_def get_prop_def
  main_menu_def core_with_menu_def core_empty_def one_block_def

lemma getMenu_example: "getMenu core_with_menu (JNum 1) = Some main_menu"
  by (simp add: getMenu_def core_with_menu_def string_of_int_def string_of_nat.simps char_of_digits)

section \<open>Properties of the component\<close>

text \<open>
  C20. A render fails exactly when the first effect runs (on mount, or after
  \<open>menuId\<close> changed) while the core store has no menu of that id: the effect reads
  \<open>menu.auto_add\<close> although the initial value (lines 66--69) guards against an
  undefined menu.
\<close>

theorem BlockEditorArea_fails_iff:
  "(\<exists>e. BlockEditorArea st menuId be core = Inl e) \<longleftrightarrow>
   getMenu core menuId = None \<and> (case st of None \<Rightarrow> True | Some s \<Rightarrow> menuId_dep s \<noteq> menuId)"
  by (cases st) (auto simp: BlockEditorArea_def Let_def menu_effect_def split: option.splits)

text \<open>
  C21. Mounting with the menu loaded keeps the menu's \<open>auto_add\<close> as the checkbox
  state and shows it, records the dependencies, hides the toolbar exactly in
  navigation mode, shows the block toolbar exactly when a block is selected, and
  dispatches \<open>selectBlock\<close> for the first block exactly when its client id is truthy.
\<close>

theorem mount_with_loaded_menu:
  assumes "getMenu core menuId = Some m"
  shows "BlockEditorArea None menuId be core =
           Inr (\<lparr>autoAddPages = get_prop m ''auto_add'', menuId_dep = menuId,
                 rootBlockId_dep = rootBlockId (select_area be), closure_menu = Some m,
                 closure_autoAddPages = get_prop m ''auto_add''\<rparr>,
                \<lparr>toolbar_hidden = isNavigationModeActive (select_area be),
                 block_toolbar_shown = hasSelectedBlock (select_area be),
                 checkbox_checked = get_prop m ''auto_add''\<rparr>,
                if truthy (rootBlockId (select_area be))
                then [SelectBlock (rootBlockId (select_area be))] else [])"
  using mount_loaded [OF assms] by (simp add: area_view_of_def select_effect_def)

theorem mount_with_loaded_menu_witness:
  "getMenu core_with_menu (JNum 1) = Some main_menu \<and>
   BlockEditorArea None (JNum 1) one_block core_with_menu =
     Inr (\<lparr>autoAddPages = JBool False, menuId_dep = JNum 1, rootBlockId_dep = JStr ''root'',
           closure_menu = Some main_menu, closure_autoAddPages = JBool False\<rparr>,
          \<lparr>toolbar_hidden = False, block_toolbar_shown = True, checkbox_checked = JBool False\<rparr>,
          [SelectBlock (JStr ''root'')])"
  using mount_with_loaded_menu [OF getMenu_example, of one_block] getMenu_example
  by (simp add: area_eval)

text \<open>
  C22. A render with the same \<open>menuId\<close> and first block as the last one dispatches
  nothing and leaves the state as it was, whatever the store now says about the
  menu: the checkbox does not follow a change of \<open>auto_add\<close> in the store.
\<close>

theorem rerender_keeps_state:
  assumes "menuId_dep s = menuId" and "rootBlockId_dep s = rootBlockId (select_area be)"
  shows "BlockEditorArea (Some s) menuId be core =
           Inr (s\<lparr>closure_menu := getMenu core menuId, closure_autoAddPages := autoAddPages s\<rparr>,
                area_view_of (select_area be) (autoAddPages s), [])"
  using assms by (rule rerender_same_deps)

definition mounted_state :: area_state where
  "mounted_state =
     \<lparr>autoAddPages = JBool False, menuId_dep = JNum 1, rootBlockId_dep = JStr ''root'',
      closure_menu = Some main_menu, closure_autoAddPages = JBool False\<rparr>"

definition core_auto_add :: core_store where
  "core_auto_add = \<lparr>menus = [(''1'', [(''auto_add'', JBool True), (''id'', JNum 1)])]\<rparr>"

theorem rerender_keeps_state_witness:
  "menuId_dep mounted_state = JNum 1 \<and>
   rootBlockId_dep mounted_state = rootBlockId (select_area one_block) \<and>
   get_prop (the (getMenu core_auto_add (JNum 1))) ''auto_add'' = JBool True \<and>
   (\<exists>s'. BlockEditorArea (Some mounted_state) (JNum 1) one_block core_auto_add =
      Inr (s', \<lparr>toolbar_hidden = False, block_toolbar_shown = True, checkbox_checked = JBool False\<rparr>, []))"
proof -
  have d: "menuId_dep mounted_state = JNum 1" "rootBlockId_dep mounted_state = rootBlockId (select_area one_block)"
    by (simp_all add: mounted_state_def select_area_def one_block_def)
  show ?thesis
    using rerender_keeps_state [OF d, of core_auto_add] d
    by (simp add: area_eval mounted_state_def core_auto_add_def string_of_int_def
        string_of_nat.simps char_of_digits)
qed

text \<open>
  C23. A click on the checkbox sets the state to the negation of the value the
  checkbox showed and saves the menu it showed with exactly that \<open>auto_add\<close>, every
  other property of the menu unchanged.
\<close>

theorem toggle_saves_flipped:
  "\<exists>m'. toggle_autoAdd s =
          (s\<lparr>autoAddPages := JBool (\<not> truthy (closure_autoAddPages s))\<rparr>, [SaveMenu m']) \<and>
        map_of m' = (map_of (spread (closure_menu s)))(''auto_add'' \<mapsto> JBool (\<not> truthy (closure_autoAddPages s)))"
  by (simp add: toggle_autoAdd_eq map_of_obj_set)

text \<open>
  C24. Round trip: clicking, letting the component re-render with the same inputs,
  and clicking again brings the state back to the truth value it showed first, and
  the second save carries that value.
\<close>

theorem toggle_twice_restores:
  assumes "menuId_dep s = menuId" and "rootBlockId_dep s = rootBlockId (select_area be)"
  shows "\<exists>s'' m1 m2. area_run (Some s) [ToggleAutoAdd, Render menuId be core, ToggleAutoAdd] =
           Inr (Some s'', [SaveMenu m1, SaveMenu m2]) \<and>
         autoAddPages s'' = JBool (truthy (closure_autoAddPages s)) \<and>
         get_prop m1 ''auto_add'' = JBool (\<not> truthy (closure_autoAddPages s)) \<and>
         get_prop m2 ''auto_add'' = JBool (truthy (closure_autoAddPages s))"
proof -
  let ?f = "JBool (\<not> truthy (closure_autoAddPages s))"
  let ?s1 = "s\<lparr>autoAddPages := ?f\<rparr>"
  have d: "menuId_dep ?s1 = menuId" "rootBlockId_dep ?s1 = rootBlockId (select_area be)"
    using assms by simp_all
  have "area_step (Some ?s1) (Render menuId be core) =
      Inr (Some (?s1\<lparr>closure_menu := getMenu core menuId, closure_autoAddPages := ?f\<rparr>), [])"
    using rerender_same_deps [OF d] by simp
  then show ?thesis by (simp add: toggle_autoAdd_eq get_prop_obj_set)
qed

theorem toggle_twice_restores_witness:
  "menuId_dep mounted_state = JNum 1 \<and>
   rootBlockId_dep mounted_state = rootBlockId (select_area one_block) \<and>
   (\<exists>s'' m1 m2. area_run (Some mounted_state)
        [ToggleAutoAdd, Render (JNum 1) one_block core_with_menu, ToggleAutoAdd] =
      Inr (Some s'', [SaveMenu m1, SaveMenu m2]) \<and>
      autoAddPages s'' = JBool False \<and> get_prop m1 ''auto_add'' = JBool True)"
proof -
  have d: "menuId_dep mounted_state = JNum 1" "rootBlockId_dep mounted_state = rootBlockId (select_area one_block)"
    by (simp_all add: mounted_state_def select_area_def one_block_def)
  from toggle_twice_restores [OF d, of core_with_menu] d show ?thesis
    by (auto simp: mounted_state_def)
qed

text \<open>
  C25. What a render shows: the toolbar is hidden exactly in navigation mode, it
  holds the block toolbar exactly when the selection starts at a non-empty client id
  of a block in the store, and the checkbox shows the state (on the first render,
  the menu's \<open>auto_add\<close>, or \<open>false\<close> while the menu is not loaded).
\<close>

theorem area_view_decisions:
  assumes "BlockEditorArea st menuId be core = Inr (s', v, calls)"
  shows "toolbar_hidden v = navigation_mode be \<and>
         block_toolbar_shown v =
           (\<exists>c. selection_start be = JStr c \<and> c \<noteq> [] \<and> c \<in> set (block_ids be)) \<and>
         checkbox_checked v =
           (case st of None \<Rightarrow> initial_autoAdd (getMenu core menuId) | Some s \<Rightarrow> autoAddPages s)"
proof -
  have "v = area_view_of (select_area be)
              (case st of None \<Rightarrow> initial_autoAdd (getMenu core menuId) | Some s \<Rightarrow> autoAddPages s)"
    using assms by (auto simp: BlockEditorArea_def Let_def split: if_splits sum.splits)
  then show ?thesis
    by (cases "selection_start be") (auto simp: area_view_of_def select_area_def)
qed

theorem area_view_decisions_witness:
  "BlockEditorArea None (JNum 1) one_block core_with_menu =
     Inr (mounted_state,
          \<lparr>toolbar_hidden = False, block_toolbar_shown = True, checkbox_checked = JBool False\<rparr>,
          [SelectBlock (JStr ''root'')]) \<and>
   block_toolbar_shown \<lparr>toolbar_hidden = False, block_toolbar_shown = True, checkbox_checked = JBool False\<rparr> =
     (\<exists>c. selection_start one_block = JStr c \<and> c \<noteq> [] \<and> c \<in> set (block_ids one_block))"
proof -
  have r: "BlockEditorArea None (JNum 1) one_block core_with_menu =
     Inr (mounted_state,
          \<lparr>toolbar_hidden = False, block_toolbar_shown = True, checkbox_checked = JBool False\<rparr>,
          [SelectBlock (JStr ''root'')])"
    using mount_loaded [OF getMenu_example, of one_block]
    by (simp add: area_eval mounted_state_def)
  from area_view_decisions [OF r] r show ?thesis by simp
qed

text \<open>
  C26. Rendering any number of times with the same inputs, starting from the mount
  with the menu loaded, dispatches \<open>selectBlock\<close> for the first block once, on the
  first render, and nothing afterwards.
\<close>

theorem repeated_renders_select_once:
  assumes "getMenu core menuId = Some m"
  shows "\<exists>s. area_run None (replicate (Suc n) (Render menuId be core)) =
             Inr (Some s, select_effect (rootBlockId (select_area be)))"
proof -
  let ?s0 = "\<lparr>autoAddPages = get_prop m ''auto_add'', menuId_dep = menuId,
                rootBlockId_dep = rootBlockId (select_area be), closure_menu = Some m,
                closure_autoAddPages = get_prop m ''auto_add''\<rparr>"
  have "area_step None (Render menuId be core) =
      Inr (Some ?s0, select_effect (rootBlockId (select_area be)))"
    using mount_loaded [OF assms] by simp
  moreover obtain s' where "area_run (Some ?s0) (replicate n (Render menuId be core)) = Inr (Some s', [])"
    using rerenders_quiet [of ?s0 menuId be n core] by auto
  ultimately show ?thesis by simp
qed

theorem repeated_renders_select_once_witness:
  "getMenu core_with_menu (JNum 1) = Some main_menu \<and>
   (\<exists>s. area_run None (replicate 3 (Render (JNum 1) one_block core_with_menu)) =
          Inr (Some s, [SelectBlock (JStr ''root'')]))"
  using repeated_renders_select_once [OF getMenu_example, of 2 one_block] getMenu_example
  by (simp add: numeral_3_eq_3 select_effect_def select_area_def one_block_def)

text \<open>
  C27. In every run from before the first render in which each store the component
  renders with gives its menus a boolean \<open>auto_add\<close>, the committed checkbox state and
  the value the click handler's closure sees are booleans, so \<open>checked\<close> always
  receives a boolean and the click always saves a boolean \<open>auto_add\<close>.
\<close>

theorem checkbox_stays_boolean:
  assumes "area_run None es = Inr (Some s, calls)" and "renders_with menus_boolean es"
  shows "is_bool (autoAddPages s) \<and> is_bool (closure_autoAddPages s)"
  using area_run_reachable [of menus_boolean None, OF _ assms(2,1)] by (simp add: area_reachable_boolean)

theorem checkbox_stays_boolean_witness:
  "area_run None [Render (JNum 1) one_block core_with_menu, ToggleAutoAdd] =
     Inr (Some (mounted_state\<lparr>autoAddPages := JBool True\<rparr>),
          [SelectBlock (JStr ''root''), SaveMenu [(''auto_add'', JBool True), (''id'', JNum 1), (''name'', JStr ''Main'')]]) \<and>
   renders_with menus_boolean [Render (JNum 1) one_block core_with_menu, ToggleAutoAdd] \<and>
   is_bool (autoAddPages (mounted_state\<lparr>autoAddPages := JBool True\<rparr>))"
proof -
  have run: "area_run None [Render (JNum 1) one_block core_with_menu, ToggleAutoAdd] =
     Inr (Some (mounted_state\<lparr>autoAddPages := JBool True\<rparr>),
          [SelectBlock (JStr ''root''), SaveMenu [(''auto_add'', JBool True), (''id'', JNum 1), (''name'', JStr ''Main'')]])"
    using getMenu_example
    by (simp add: area_eval mounted_state_def toggle_autoAdd_def main_menu_def js_eval)
  have ok: "renders_with menus_boolean [Render (JNum 1) one_block core_with_menu, ToggleAutoAdd]"
    by (simp add: menus_boolean_def core_with_menu_def main_menu_def is_bool_def get_prop_def)
  from checkbox_stays_boolean [OF run ok] run ok show ?thesis by simp
qed
end
