(* ===== verification/Spec2Isabelle.thy ===== *)
theory Spec2Isabelle
  imports Navigation_Store Format_Types Block_Editor_Area
begin

text \<open>
  \<^bold>\<open>A verification library for three files of the Gutenberg navigation editor.\<close>

  \<^emph>\<open>The program.\<close> Three independent pieces of editor glue code:
  \<^item> \<open>src/packages/edit-navigation/src/store/reducer.js\<close>: the reducer \<open>mappings\<close>, which
    keeps a mapping between menu item ids and the client ids of the blocks that edit
    them (\<open>menuItemIdByClientId\<close>) and its lodash inverse (\<open>clientIdByMenuItemId\<close>), and
    the root reducer \<open>combineReducers({ mappings })\<close> that the navigation data store
    runs, one dispatched action at a time;
  \<^item> \<open>src/packages/rich-text/src/component/use-format-types.js\<close>: the hook
    \<open>useFormatTypes\<close>, which folds the registered format types (plugins) into the
    props and handlers the rich-text editor uses;
  \<^item> \<open>src/packages/edit-navigation/src/components/menu-editor/block-editor-area.js\<close>:
    the React component \<open>BlockEditorArea\<close>, which selects the first block, shows the
    toolbars and keeps the menu's "automatically add pages" checkbox.
  They do not call each other; what they share is the JavaScript they run on.

  \<^emph>\<open>Theories.\<close>
  \<^item> \<open>Prelude\<close>: the collections \<open>obj_simps\<close> and \<open>wf_intros\<close>, the type \<open>'v obj\<close>
    of plain objects (their own properties in property order), and list, fold,
    association-list and filter lemmas the components share.
  \<^item> \<open>JS_Object\<close>: the environment, not code of the repository: primitive values
    \<open>jsval\<close>, \<open>TypeError\<close>, ToPropertyKey (\<open>to_key\<close>, with \<open>string_of_nat\<close> and
    its inverse \<open>index_value\<close>), array indices, the property order of an ordinary
    object (\<open>key_before\<close>, \<open>wf_obj\<close>), assignment \<open>obj_set\<close>, spread and
    \<open>Object.assign\<close> (\<open>spread\<close>, \<open>obj_assign\<close>), \<open>truthy\<close>, \<open>get_prop\<close> and lodash's
    \<open>invert\<close>. Proved here: assignment refines map update and keeps the property order,
    decimal printing and reading are inverse on canonical numerals, and \<open>invert\<close> is
    sound, complete on injective objects, resolves duplicates by the last property in
    property order, and inverts back.
  \<^item> \<open>Navigation_Store\<close> (reducer.js, lines 11--44): \<open>mappings_state\<close> (the slice,
    two optional objects since the default slice is \<open>{}\<close>), \<open>action\<close> (the
    destructured fields), \<open>mappings\<close> (the three branches and the TypeError of an
    assignment on an undefined state), \<open>store_state\<close> and \<open>reducer\<close>
    (\<open>combineReducers\<close>), and, from the spec, the data store's initialisation and
    dispatch as the inductive \<open>reachable\<close> and the fold \<open>dispatch_all\<close>. The
    invariant \<open>mappings_consistent\<close> (the inverse is lodash's inverse of the mapping)
    holds in every reachable state (C1); C2--C7, C11 and C13 follow from it. Two
    assignments to distinct array-index ids commute (C8, from \<open>obj_set_commute\<close>),
    so the winner of a shared client id is fixed by property order, not by which
    assignment was dispatched last.
  \<^item> \<open>Format_Types\<close> (use-format-types.js, lines 18--119): a format type is a record of
    optional plugin callbacks over type variables for \<open>select\<close>, \<open>dispatch\<close>, prop
    values and handlers, so that every property holds for every plugin; the two
    \<open>reduce\<close> calls are folds of \<open>select_step\<close> and \<open>change_step\<close>. Each fold is shown
    equal to a filter/concat reference (C14, C16, C18), with the lookup of the select
    props by name (C17) and the counting and alignment properties C15 and C19.
  \<^item> \<open>Block_Editor_Area\<close> (block-editor-area.js, lines 35--136): the selectors,
    \<open>useState\<close>, the two effects with their dependency arrays, the render's visible
    decisions and the checkbox handler over the render's closure, in one function
    \<open>BlockEditorArea\<close> from the hook state to the new hook state, the view and the
    dispatched actions; \<open>area_step\<close> and \<open>area_run\<close> (spec-modelled: React's render
    and commit) run it over render and click events (C20--C26). The inductive
    \<open>area_reachable\<close> (spec-modelled: the hook states React can commit while the
    stores satisfy a condition) is entered by every run (\<open>area_run_reachable\<close>);
    by rule induction over it the checkbox state stays a boolean when the core
    store's menus have boolean \<open>auto_add\<close> (C27).
  \<^item> \<open>Spec2Isabelle\<close> (this theory): the abstract contract of the id mapper of the
    design (a forward map, \<open>ReplaceAll\<close>, \<open>AssignOne\<close>) and the refinement theorem that
    the reducer implements it (C12).

  \<^emph>\<open>Modelling choices.\<close> An object is the list of its own properties in the order
  OrdinaryOwnPropertyKeys gives them, which is all the code can observe; menu item ids
  are integers and become property keys by their decimal string. Errors are values
  (\<open>js_error + _\<close>). No loop of the sources can fail to end: the folds are structural
  recursion over finite lists and no fuel is needed. Every definition is executable;
  the witnesses evaluate them by \<open>simp\<close> with the bundles \<open>js_eval\<close>,
  \<open>format_type_eval\<close> and \<open>area_eval\<close>.

  \<^emph>\<open>Not modelled.\<close> Rendering by library components (cards, buttons, block list,
  popover slot, \<open>DeleteMenuButton\<close>), translations, the registry query
  \<open>formatTypesSelector\<close>, and the memoisation of \<open>useSelect\<close> and
  \<open>__unstableUseDispatchWithMap\<close> (when the folds run, not what they compute). The
  empty \<open>if\<close> and the \<open>console.log\<close> of the reducer have no effect on the state.
  Property names are assumed not to be \<open>__proto__\<close> and numbers to be integers. A
  props getter of a format type is assumed to return an object: one returning
  \<open>undefined\<close> would make \<open>Object.values\<close> throw (use-format-types.js, line 44), a
  path the model does not have.

  \<^emph>\<open>Plan for later sittings.\<close> (1) The memoisation of the two hooks of
  \<open>useFormatTypes\<close>, with React's comparison of dependency arrays, to state when change
  handlers see stale select props. (2) Further invariants over
  \<open>area_reachable\<close>, relating the checkbox state to the last save. (3) The identity
  behaviour of \<open>combineReducers\<close> (the same state object when nothing changed).
  (4) More of the JavaScript environment where a claim needs it (non-integer numbers,
  \<open>__proto__\<close>).
\<close>

section \<open>The contract of the id mapper\<close>

text \<open>
  The abstract id mapper of the design: a forward map from menu item ids (property
  keys) to client ids, replaced wholesale by \<open>ReplaceAll\<close> and updated one pair at a
  time by \<open>AssignOne\<close>; the backward map is always derived from it.
\<close>

datatype id_op = ReplaceAll "string \<rightharpoonup> jsval" | AssignOne string jsval

fun id_step :: "(string \<rightharpoonup> jsval) \<Rightarrow> id_op \<Rightarrow> (string \<rightharpoonup> jsval)" where
  "id_step f (ReplaceAll m) = m"
| "id_step f (AssignOne k v) = f(k \<mapsto> v)"

text \<open>The abstraction of a store state: the forward map it looks ids up in.\<close>

definition forward_of :: "store_state \<Rightarrow> (string \<rightharpoonup> jsval)" where
  "forward_of s = map_of (spread (menuItemIdByClientId (store_mappings s)))"

text \<open>The abstract operation an action stands for; \<open>None\<close> for actions the mapper ignores.\<close>

definition abs_action :: "action \<Rightarrow> id_op option" where
  "abs_action a =
     (if action_type a = SET then Some (ReplaceAll (map_of (spread (mapping a))))
      else if action_type a = ASSIGN then Some (AssignOne (to_key (menuItemId a)) (clientId a))
      else None)"

text \<open>
  C12. The reducer implements the contract: from any reachable state, the forward map
  of the result is the abstract step on the forward map of the state.
\<close>

theorem reducer_refines_id_step:
  assumes "reachable s" and "reducer (Some s) a = Inr s'"
  shows "forward_of s' =
           (case abs_action a of None \<Rightarrow> forward_of s | Some op \<Rightarrow> id_step (forward_of s) op)"
proof -
  have "wf_obj (assigned (store_mappings s) a)" using assms(1) by (rule assigned_wf)
  with assms(2) show ?thesis
    by (auto simp: reducer_def mappings_def Let_def forward_of_def abs_action_def
        lodash_invert_def spread_Some map_of_obj_set split: sum.splits)
qed

theorem reducer_refines_id_step_witness:
  "reachable example_state \<and>
   reducer (Some example_state) (assign_action (JNum 12) (JStr ''b'')) = Inr example_reassigned \<and>
   forward_of example_reassigned = (forward_of example_state)(''12'' \<mapsto> JStr ''b'')"
proof -
  have "abs_action (assign_action (JNum 12) (JStr ''b'')) = Some (AssignOne ''12'' (JStr ''b''))"
    by (simp add: abs_action_def assign_action_def js_eval)
  with reducer_refines_id_step [OF reachable_example_state example_reassign]
    reachable_example_state example_reassign
  show ?thesis by simp
qed

end
